theory Spec2Isabelle
  imports Main "HOL-Library.AList"
begin

section \<open>JSON-like configuration values\<close>

text \<open>
  A configuration object is what the YAML loader and the remote API hand to the engine: a
  JavaScript value built from null, booleans, numbers, strings, arrays and plain objects.
  An object is kept as the list of its own enumerable properties in \<^verbatim>\<open>Object.keys\<close> order,
  so that the order in which the loops of the source visit keys is part of the model.
  A JavaScript object holds every key once; \<open>wf_json\<close> says so for a value and all the
  values nested in it. Numbers only ever meet \<^verbatim>\<open>===\<close> in the code covered here, so they are
  integers in the model. Configuration data holds no function, but every plain object
  inherits the built-in functions of \<^verbatim>\<open>Object.prototype\<close>, and code that reads a property
  without asking whether it is an own one can get hold of such a function: \<open>JFun name\<close> is
  the function that \<^verbatim>\<open>Object.prototype\<close> holds under \<open>name\<close>.
\<close>

datatype json =
    JNull
  | JBool bool
  | JNum int
  | JStr string
  | JArr "json list"
  | JObj "(string \<times> json) list"
  | JFun string

type_synonym obj = "(string \<times> json) list"

fun wf_json :: "json \<Rightarrow> bool" where
  "wf_json (JArr xs) = (\<forall>x \<in> set xs. wf_json x)"
| "wf_json (JObj kvs) = (distinct (map fst kvs) \<and> (\<forall>kv \<in> set kvs. wf_json (snd kv)))"
| "wf_json v = True"

text \<open>\<open>has_key\<close> asks for an own property (\<^verbatim>\<open>Object.keys(o)\<close> holds the key). The assignment
  \<^verbatim>\<open>o[key] = v\<close> is \<open>assign\<close>: an existing property keeps its place, a new one goes to the
  end. (The engine lists keys that are array indices first, in numeric order; an object
  built by \<open>assign\<close> keeps them where they were inserted. Nothing below depends on the
  order of the keys of an object built so.)\<close>

definition has_key :: "string \<Rightarrow> obj \<Rightarrow> bool" where
  "has_key k ob = (k \<in> set (map fst ob))"

fun assign :: "obj \<Rightarrow> string \<Rightarrow> json \<Rightarrow> obj" where
  "assign [] k v = [(k, v)]"
| "assign ((k', v') # rest) k v =
     (if k' = k then (k, v) # rest else (k', v') # assign rest k v)"

text \<open>
  The operator \<^verbatim>\<open>in\<close> and a property read \<^verbatim>\<open>o[key]\<close> on a plain object also see what the
  object inherits from \<^verbatim>\<open>Object.prototype\<close>: the built-in functions listed here, and the
  accessor \<^verbatim>\<open>__proto__\<close>. \<open>in_object k o\<close> is \<^verbatim>\<open>k in o\<close>. \<open>get_property o k\<close> is the read
  \<^verbatim>\<open>o[k]\<close>, with \<open>None\<close> for \<^verbatim>\<open>undefined\<close>, for every key but \<^verbatim>\<open>__proto__\<close> (whose read
  gives the prototype object itself; the model never reads it). Assigning to one of the
  function names makes an own property, as for any other key. Assigning to \<^verbatim>\<open>__proto__\<close>
  does not: it runs the setter of the accessor, which makes no own property and may replace
  the prototype of the object. The model does not follow the code beyond such an assignment:
  the functions below that assign properties return \<open>None\<close> when the code would assign
  \<^verbatim>\<open>__proto__\<close>, and \<open>Some\<close> of the result otherwise.
\<close>

definition Object_prototype_functions :: "string list" where
  "Object_prototype_functions =
     [''constructor'', ''__defineGetter__'', ''__defineSetter__'', ''hasOwnProperty'',
      ''__lookupGetter__'', ''__lookupSetter__'', ''isPrototypeOf'', ''propertyIsEnumerable'',
      ''toString'', ''valueOf'', ''toLocaleString'']"

definition in_object :: "string \<Rightarrow> obj \<Rightarrow> bool" where
  "in_object k ob =
     (has_key k ob \<or> k \<in> set Object_prototype_functions \<or> k = ''__proto__'')"

definition get_property :: "obj \<Rightarrow> string \<Rightarrow> json option" where
  "get_property ob k =
     (case map_of ob k of
        Some v \<Rightarrow> Some v
      | None \<Rightarrow> if k \<in> set Object_prototype_functions then Some (JFun k) else None)"

text \<open>\<^verbatim>\<open>typeof\<close>, \<^verbatim>\<open>Array.isArray\<close> and truthiness (\<^verbatim>\<open>!v\<close> is \<open>\<not> truthy v\<close>) on these values.\<close>

datatype jstype = TObject | TBoolean | TNumber | TString | TFunction

fun typeof :: "json \<Rightarrow> jstype" where
  "typeof JNull = TObject"
| "typeof (JBool b) = TBoolean"
| "typeof (JNum n) = TNumber"
| "typeof (JStr s) = TString"
| "typeof (JArr xs) = TObject"
| "typeof (JObj kvs) = TObject"
| "typeof (JFun f) = TFunction"

fun isArray :: "json \<Rightarrow> bool" where
  "isArray (JArr xs) = True"
| "isArray v = False"


section \<open>DeepMerge (merge/deep-merge.ts)\<close>

text \<open>\<^verbatim>\<open>cloneValue\<close>, with its \<^verbatim>\<open>map\<close> over the elements of an array and its loop over the
  entries of an object.\<close>

fun cloneValue :: "json \<Rightarrow> json option"
  and cloneValue_items :: "json list \<Rightarrow> json list option"
  and cloneValue_entries :: "obj \<Rightarrow> obj \<Rightarrow> obj option" where
  "cloneValue JNull = Some JNull"
| "cloneValue (JArr xs) = map_option JArr (cloneValue_items xs)"
| "cloneValue (JObj kvs) = map_option JObj (cloneValue_entries kvs [])"
| "cloneValue v = Some v"
| "cloneValue_items [] = Some []"
| "cloneValue_items (x # xs) =
     (case cloneValue x of
        None \<Rightarrow> None
      | Some y \<Rightarrow> (case cloneValue_items xs of None \<Rightarrow> None | Some ys \<Rightarrow> Some (y # ys)))"
| "cloneValue_entries [] result = Some result"
| "cloneValue_entries ((key, val) # rest) result =
     (case cloneValue val of
        None \<Rightarrow> None
      | Some v \<Rightarrow>
          if key = ''__proto__'' then None
          else cloneValue_entries rest (assign result key v))"

text \<open>The second loop of \<^verbatim>\<open>deepMerge\<close>, over the keys of the overlay, with the result object
  built so far. An own key \<^verbatim>\<open>__proto__\<close> of the overlay is skipped here, \<^verbatim>\<open>in\<close> being true
  for it.\<close>

fun deepMerge_overlay :: "obj \<Rightarrow> obj \<Rightarrow> obj option" where
  "deepMerge_overlay [] result = Some result"
| "deepMerge_overlay ((key, overlayValue) # rest) result =
     (if in_object key result then deepMerge_overlay rest result
      else if overlayValue = JNull then deepMerge_overlay rest result
      else (case cloneValue overlayValue of
              None \<Rightarrow> None
            | Some v \<Rightarrow> deepMerge_overlay rest (assign result key v)))"

text \<open>
  \<^verbatim>\<open>deepMerge\<close>, its first loop over the keys of the base (\<open>deepMerge_base\<close>, with the
  result object built so far) and \<^verbatim>\<open>mergeValues\<close>. In the loop, \<^verbatim>\<open>overlay[key]\<close> is
  \<open>get_property overlay key\<close>, and \<^verbatim>\<open>key in overlay\<close> holds exactly when that read is
  defined. For the base key \<^verbatim>\<open>__proto__\<close> the code skips the key when the overlay holds null
  under it and assigns \<^verbatim>\<open>result.__proto__\<close> otherwise.
\<close>

function deepMerge :: "obj \<Rightarrow> obj \<Rightarrow> obj option"
  and deepMerge_base :: "obj \<Rightarrow> obj \<Rightarrow> obj \<Rightarrow> obj option"
  and mergeValues :: "json \<Rightarrow> json \<Rightarrow> json option" where
  "deepMerge base overlay =
     (case deepMerge_base base overlay [] of
        None \<Rightarrow> None
      | Some result \<Rightarrow> deepMerge_overlay overlay result)"
| "deepMerge_base [] overlay result = Some result"
| "deepMerge_base ((key, baseValue) # rest) overlay result =
     (if map_of overlay key = Some JNull then deepMerge_base rest overlay result
      else if key = ''__proto__'' then None
      else (case get_property overlay key of
              None \<Rightarrow>
                (case cloneValue baseValue of
                   None \<Rightarrow> None
                 | Some v \<Rightarrow> deepMerge_base rest overlay (assign result key v))
            | Some overlayValue \<Rightarrow>
                (case mergeValues baseValue overlayValue of
                   None \<Rightarrow> None
                 | Some v \<Rightarrow> deepMerge_base rest overlay (assign result key v))))"
| "mergeValues base overlay =
     (if typeof base \<noteq> typeof overlay then cloneValue overlay
      else if isArray base \<or> isArray overlay then cloneValue overlay
      else (case (base, overlay) of
              (JObj b, JObj ov) \<Rightarrow> map_option JObj (deepMerge b ov)
            | _ \<Rightarrow> Some overlay))"
  by pat_completeness auto
termination by lexicographic_order

text \<open>
  The per-key reading of the merge, in the words of the specification: what the merged
  object holds under key \<open>k\<close>, from what base and overlay hold under \<open>k\<close> as own
  properties. Where both hold a plain object the merge recurses, through \<open>deepMerge\<close>
  itself.
\<close>

definition deepMerge_spec :: "obj \<Rightarrow> obj \<Rightarrow> string \<Rightarrow> json option" where
  "deepMerge_spec base overlay k =
     (case map_of overlay k of
        None \<Rightarrow> map_of base k
      | Some JNull \<Rightarrow> None
      | Some ov \<Rightarrow>
          (case map_of base k of
             None \<Rightarrow> Some ov
           | Some bv \<Rightarrow>
               (if typeof bv \<noteq> typeof ov then Some ov
                else if isArray bv \<or> isArray ov then Some ov
                else (case (bv, ov) of
                        (JObj b, JObj ob) \<Rightarrow> map_option JObj (deepMerge b ob)
                      | _ \<Rightarrow> Some ov))))"

section \<open>Hierarchy resolver (merge/hierarchy.ts)\<close>



definition shouldInherit :: "obj \<Rightarrow> bool" where
  "shouldInherit channelConfig =
     (in_object ''id'' channelConfig \<and> get_property channelConfig ''id'' \<noteq> None)"


definition mergeConfigs :: "obj \<Rightarrow> obj \<Rightarrow> obj option" where
  "mergeConfigs rootConfig channelConfig = deepMerge rootConfig channelConfig"

section \<open>Diff engine (diff/differ.ts)\<close>

subsection \<open>The structural diff primitive\<close>

text \<open>
  A change record of the diff primitive: kind \<^verbatim>\<open>N\<close> (new, with \<^verbatim>\<open>rhs\<close>), \<^verbatim>\<open>D\<close> (deleted,
  with \<^verbatim>\<open>lhs\<close>), \<^verbatim>\<open>E\<close> (edited, with both) and \<^verbatim>\<open>A\<close> (a change at an index of an array,
  with the index and the nested item). A path segment is an object key or an array index;
  the empty path stands for a record without a \<^verbatim>\<open>path\<close> property.
\<close>

datatype seg = Key string | Idx nat

datatype diff =
    DiffNew "seg list" json
  | DiffDeleted "seg list" json
  | DiffEdit "seg list" json json
  | DiffArray "seg list" nat diff

fun diff_path :: "diff \<Rightarrow> seg list" where
  "diff_path (DiffNew p r) = p"
| "diff_path (DiffDeleted p l) = p"
| "diff_path (DiffEdit p l r) = p"
| "diff_path (DiffArray p i item) = p"

datatype realtype = RNull | RArray | RObject | RBoolean | RNumber | RString | RFunction

fun realTypeOf :: "json \<Rightarrow> realtype" where
  "realTypeOf JNull = RNull"
| "realTypeOf (JBool b) = RBoolean"
| "realTypeOf (JNum n) = RNumber"
| "realTypeOf (JStr s) = RString"
| "realTypeOf (JArr xs) = RArray"
| "realTypeOf (JObj kvs) = RObject"
| "realTypeOf (JFun f) = RFunction"

text \<open>
  Modelled from the spec: the structural diff primitive \<^verbatim>\<open>deepDiff\<close>, which differ.ts imports
  from the package deep-diff and whose code is not under src/. The specification (4.3) fixes
  what it reports: a field of the right-hand value that the left-hand value lacks is new, a
  field of the left-hand value that the right-hand value lacks is deleted, a field of both
  with differing values is edited, equality is deep structural equality, a change at an
  array element carries the index, and the results come in traversal order. The traversal
  is the package's: values of different kinds are one edit; objects are walked key by key,
  first the keys of the left-hand object, then the keys only the right-hand one has; arrays
  are walked from the last index down, the surplus elements of the longer array first, as
  \<^verbatim>\<open>A\<close> records on the path of the array.
\<close>

function deepDiff :: "json \<Rightarrow> json \<Rightarrow> seg list \<Rightarrow> diff list" where
  "deepDiff lhs rhs currentPath =
     (if realTypeOf lhs \<noteq> realTypeOf rhs then [DiffEdit currentPath lhs rhs]
      else (case (lhs, rhs) of
              (JArr ls, JArr rs) \<Rightarrow>
                map (\<lambda>i. DiffArray currentPath i (DiffNew [] (rs ! i)))
                    (rev [length ls ..< length rs])
                @ map (\<lambda>j. DiffArray currentPath j (DiffDeleted [] (ls ! j)))
                    (rev [length rs ..< length ls])
                @ concat (map (\<lambda>i. deepDiff (ls ! i) (rs ! i) (currentPath @ [Idx i]))
                    (rev [0 ..< min (length ls) (length rs)]))
            | (JObj lo, JObj ro) \<Rightarrow>
                concat (map (\<lambda>kv.
                    (case map_of ro (fst kv) of
                       Some rv \<Rightarrow> deepDiff (snd kv) rv (currentPath @ [Key (fst kv)])
                     | None \<Rightarrow> [DiffDeleted (currentPath @ [Key (fst kv)]) (snd kv)])) lo)
                @ map (\<lambda>kv. DiffNew (currentPath @ [Key (fst kv)]) (snd kv))
                    (filter (\<lambda>kv. \<not> has_key (fst kv) lo) ro)
            | _ \<Rightarrow> (if lhs \<noteq> rhs then [DiffEdit currentPath lhs rhs] else [])))"
  by pat_completeness auto
termination
proof (relation "measure (\<lambda>(lhs, rhs, p). size lhs)")
  show "wf (measure (\<lambda>(lhs, rhs, p). size lhs))" by simp
next
  fix lhs rhs :: json and currentPath :: "seg list" and x y :: json
    and ls rs :: "json list" and i :: nat
  assume "(x, y) = (lhs, rhs)" and "x = JArr ls" and "y = JArr rs"
    and "i \<in> set (rev [0..<min (length ls) (length rs)])"
  then have l: "lhs = JArr ls" and i: "i < length ls" by auto
  have "size (ls ! i) \<le> size_list size ls"
    using size_list_estimation'[of "ls ! i" ls "size (ls ! i)" size] i by simp
  then show "((ls ! i, rs ! i, currentPath @ [Idx i]), lhs, rhs, currentPath)
               \<in> measure (\<lambda>(lhs, rhs, p). size lhs)"
    by (simp add: l)
next
  fix lhs rhs :: json and currentPath :: "seg list" and x y :: json
    and lo ro :: obj and kv :: "string \<times> json" and rv :: json
  assume "(x, y) = (lhs, rhs)" and "x = JObj lo" and "kv \<in> set lo"
  then have l: "lhs = JObj lo" and kv: "kv \<in> set lo" by auto
  have "size (snd kv) \<le> size_list (size_prod (\<lambda>x. 0) size) lo"
    using size_list_estimation'[of kv lo "size (snd kv)" "size_prod (\<lambda>x. 0) size"] kv
    by (cases kv) simp
  then show "((snd kv, rv, currentPath @ [Key (fst kv)]), lhs, rhs, currentPath)
               \<in> measure (\<lambda>(lhs, rhs, p). size lhs)"
    by (simp add: l)
qed

declare deepDiff.simps [simp del]

subsection \<open>Field diffs\<close>

datatype difftype = Add | Remove | Change

record FieldDiff =
  fd_path :: string
  fd_type :: difftype
  fd_oldValue :: "json option"
  fd_newValue :: "json option"

text \<open>\<^verbatim>\<open>Array.prototype.join\<close> on path segments: a number is written in decimal.\<close>

function string_of_nat :: "nat \<Rightarrow> string" where
  "string_of_nat n =
     (if n < 10 then [''0123456789'' ! n]
      else string_of_nat (n div 10) @ [''0123456789'' ! (n mod 10)])"
  by pat_completeness auto
termination by (relation "measure id") auto

fun seg_string :: "seg \<Rightarrow> string" where
  "seg_string (Key k) = k"
| "seg_string (Idx i) = string_of_nat i"

fun join :: "string list \<Rightarrow> string \<Rightarrow> string" where
  "join [] sep = []"
| "join [x] sep = x"
| "join (x # y # ys) sep = x @ sep @ join (y # ys) sep"

definition isRelevantDiff :: "diff \<Rightarrow> bool" where
  "isRelevantDiff d =
     (case diff_path d of
        Key k # rest \<Rightarrow> (if k = ''$schema'' then False else True)
      | _ \<Rightarrow> True)"

fun convertDiff :: "diff \<Rightarrow> FieldDiff" where
  "convertDiff (DiffNew p rhs) =
     \<lparr>fd_path = ''/'' @ join (map seg_string p) ''/'', fd_type = Add,
      fd_oldValue = None, fd_newValue = Some rhs\<rparr>"
| "convertDiff (DiffDeleted p lhs) =
     \<lparr>fd_path = ''/'' @ join (map seg_string p) ''/'', fd_type = Remove,
      fd_oldValue = Some lhs, fd_newValue = None\<rparr>"
| "convertDiff (DiffEdit p lhs rhs) =
     \<lparr>fd_path = ''/'' @ join (map seg_string p) ''/'', fd_type = Change,
      fd_oldValue = Some lhs, fd_newValue = Some rhs\<rparr>"
| "convertDiff (DiffArray p index item) =
     (let arrayPath = (''/'' @ join (map seg_string p) ''/'') @ ''/'' @ string_of_nat index
      in (case item of
            DiffNew q rhs \<Rightarrow>
              \<lparr>fd_path = arrayPath, fd_type = Add, fd_oldValue = None, fd_newValue = Some rhs\<rparr>
          | DiffDeleted q lhs \<Rightarrow>
              \<lparr>fd_path = arrayPath, fd_type = Remove, fd_oldValue = Some lhs, fd_newValue = None\<rparr>
          | DiffEdit q lhs rhs \<Rightarrow>
              \<lparr>fd_path = arrayPath, fd_type = Change,
               fd_oldValue = Some lhs, fd_newValue = Some rhs\<rparr>
          | DiffArray q j it \<Rightarrow>
              \<lparr>fd_path = arrayPath, fd_type = Change, fd_oldValue = None, fd_newValue = None\<rparr>))"

definition diffConfigs :: "obj \<Rightarrow> obj \<Rightarrow> FieldDiff list" where
  "diffConfigs local remote =
     (let differences = deepDiff (JObj remote) (JObj local) []
      in if differences = [] then []
         else map convertDiff (filter isRelevantDiff differences))"

definition configsEqual :: "obj \<Rightarrow> obj \<Rightarrow> bool" where
  "configsEqual local remote = (length (diffConfigs local remote) = 0)"

section \<open>Shared data (types/index.ts, plan/types.ts, api/types.ts)\<close>

text \<open>
  Several interfaces of the source share field names (\<^verbatim>\<open>name\<close>, \<^verbatim>\<open>path\<close>, \<^verbatim>\<open>configs\<close>,
  \<^verbatim>\<open>status\<close>, \<^verbatim>\<open>diffs\<close>, \<^verbatim>\<open>summary\<close>); each record field carries a short prefix for its
  interface. Fields that the planner and the compare service never read
  (\<^verbatim>\<open>raw\<close>, \<^verbatim>\<open>schemaUrl\<close>, \<^verbatim>\<open>inheritsFromRoot\<close>, \<^verbatim>\<open>validationStatus\<close>, \<^verbatim>\<open>displayName\<close>) are left out.
\<close>

record ChannelConfig =
  cfg_name :: string
  cfg_path :: string
  cfg_merged :: obj
  cfg_id :: "string option"

record Channel =
  ch_name :: string
  ch_path :: string
  ch_configs :: "ChannelConfig list"

datatype planstatus = Create | Update | Unchanged

record ConfigPlan =
  cp_name :: string
  cp_status :: planstatus
  cp_diffs :: "FieldDiff list"

record ChannelPlan =
  chp_channel :: string
  chp_existsRemotely :: bool
  chp_configs :: "ConfigPlan list"

record PlanSummary =
  creates :: nat
  updates :: nat
  unchanged :: nat
  unmanaged :: nat

record Plan =
  plan_merchant :: string
  plan_timestamp :: string
  plan_channels :: "ChannelPlan list"
  plan_summary :: PlanSummary

record RemoteChannel =
  rch_name :: string

record ProjectConfig =
  merchant :: string
  api_baseUrl :: string
  api_token :: "string option"

record ValidationError =
  ve_filePath :: string
  ve_message :: string

record ChannelValidationResult =
  cvr_name :: string
  cvr_valid :: bool
  cvr_errors :: "ValidationError list"

record ValidationResult =
  vr_valid :: bool
  vr_channels :: "ChannelValidationResult list"

record PlanOptions =
  opt_channel :: "string option"
  opt_verbose :: "bool option"

text \<open>
  What the code throws: the two error classes of plan/service.ts and api/client.ts, the
  one of secrets/substitute.ts, a plain \<^verbatim>\<open>Error\<close>, and any other thrown value (a
  \<^verbatim>\<open>TypeError\<close> of \<^verbatim>\<open>fetch\<close> when the network fails, a \<^verbatim>\<open>SyntaxError\<close> of
  \<^verbatim>\<open>JSON.parse\<close>, a file-system error). \<open>ApiError\<close> carries its message and status code.
\<close>

datatype exn =
    PlanValidationError string "(string \<times> string) list"
  | Error string
  | ApiError string int
  | MissingEnvVarError string "string list"
  | OtherError string

fun exn_message :: "exn \<Rightarrow> string" where
  "exn_message (PlanValidationError m errors) = m"
| "exn_message (Error m) = m"
| "exn_message (ApiError m statusCode) = m"
| "exn_message (MissingEnvVarError m missingVars) = m"
| "exn_message (OtherError m) = m"

text \<open>
  The collaborators of the orchestrator, each as the result it gives in one run: project
  validation, channel discovery, the reading of one channel's configuration files, the
  environment, secret substitution, the two listing calls of the API client, and the clock.
\<close>

record world =
  validateProject :: "exn + ValidationResult"
  discoverChannels :: "exn + Channel list"
  readChannelConfigs :: "Channel \<Rightarrow> exn + ChannelConfig list"
  getEnvironment :: "exn + (string \<times> string) list"
  substituteSecrets :: "obj \<Rightarrow> (string \<times> string) list \<Rightarrow> exn + obj"
  listChannels :: "exn + RemoteChannel list"
  listConfigs :: "string \<Rightarrow> exn + obj list"
  now :: string

text \<open>\<^verbatim>\<open>new Set(xs)\<close>: the elements in insertion order, each once. A \<^verbatim>\<open>Map\<close> with string keys
  is an association list; \<^verbatim>\<open>m.set(k, v)\<close> is \<open>AList.update k v m\<close>.\<close>

definition new_Set :: "'a list \<Rightarrow> 'a list" where
  "new_Set xs = fold (\<lambda>x s. if x \<in> set s then s else s @ [x]) xs []"

definition new_Map :: "(string \<times> 'v) list \<Rightarrow> (string \<times> 'v) list" where
  "new_Map entries = fold (\<lambda>kv m. AList.update (fst kv) (snd kv) m) entries []"

text \<open>A loop whose body may throw: the first error ends it.\<close>

fun mapM :: "('a \<Rightarrow> exn + 'b) \<Rightarrow> 'a list \<Rightarrow> exn + 'b list" where
  "mapM f [] = Inr []"
| "mapM f (x # xs) =
     (case f x of
        Inl e \<Rightarrow> Inl e
      | Inr y \<Rightarrow> (case mapM f xs of Inl e \<Rightarrow> Inl e | Inr ys \<Rightarrow> Inr (y # ys)))"

section \<open>Config loader (config/loader.ts)\<close>

definition loadChannelConfigs :: "world \<Rightarrow> Channel \<Rightarrow> exn + Channel" where
  "loadChannelConfigs w channel =
     (case readChannelConfigs w channel of
        Inl e \<Rightarrow> Inl e
      | Inr configs \<Rightarrow> Inr (channel\<lparr>ch_configs := configs\<rparr>))"

definition loadAllChannelConfigs :: "world \<Rightarrow> Channel list \<Rightarrow> exn + Channel list" where
  "loadAllChannelConfigs w channels = mapM (loadChannelConfigs w) channels"

section \<open>Plan orchestrator (plan/service.ts)\<close>

definition substituteSecretsInChannels ::
  "world \<Rightarrow> Channel list \<Rightarrow> (string \<times> string) list \<Rightarrow> exn + Channel list" where
  "substituteSecretsInChannels w channels env =
     mapM (\<lambda>channel.
        (case mapM (\<lambda>config.
                 (case substituteSecrets w (cfg_merged config) env of
                    Inr substituted \<Rightarrow> Inr (config\<lparr>cfg_merged := substituted\<rparr>)
                  | Inl (MissingEnvVarError m missingVars) \<Rightarrow>
                      Inl (Error (''Missing environment variables in '' @ cfg_path config
                                   @ '': '' @ join missingVars '', ''))
                  | Inl error \<Rightarrow> Inl error))
               (ch_configs channel) of
           Inl e \<Rightarrow> Inl e
         | Inr configs \<Rightarrow> Inr (channel\<lparr>ch_configs := configs\<rparr>)))
       channels"

definition generateConfigPlan :: "ChannelConfig \<Rightarrow> (string \<times> obj) list \<Rightarrow> ConfigPlan" where
  "generateConfigPlan localConfig remoteConfigs =
     (let configId = (case cfg_id localConfig of Some i \<Rightarrow> i | None \<Rightarrow> cfg_name localConfig)
      in (case map_of remoteConfigs configId of
            None \<Rightarrow>
              \<lparr>cp_name = cfg_name localConfig, cp_status = Create,
               cp_diffs = diffConfigs (cfg_merged localConfig) []\<rparr>
          | Some remoteConfig \<Rightarrow>
              (let diffs = diffConfigs (cfg_merged localConfig) remoteConfig
               in if length diffs = 0
                  then \<lparr>cp_name = cfg_name localConfig, cp_status = Unchanged, cp_diffs = []\<rparr>
                  else \<lparr>cp_name = cfg_name localConfig, cp_status = Update, cp_diffs = diffs\<rparr>)))"

text \<open>
  \<^verbatim>\<open>remoteConfigs.set(config.id, config)\<close>. \<^verbatim>\<open>RemoteConfig\<close> declares \<^verbatim>\<open>id: string\<close>; an object
  without a string \<^verbatim>\<open>id\<close> would sit under a key that no lookup by a string finds, and the
  model leaves it out of the map.
\<close>

definition set_remote :: "obj \<Rightarrow> (string \<times> obj) list \<Rightarrow> (string \<times> obj) list" where
  "set_remote config remoteConfigs =
     (case map_of config ''id'' of
        Some (JStr i) \<Rightarrow> AList.update i config remoteConfigs
      | _ \<Rightarrow> remoteConfigs)"

definition generateChannelPlan :: "world \<Rightarrow> Channel \<Rightarrow> bool \<Rightarrow> exn + ChannelPlan" where
  "generateChannelPlan w channel existsRemotely =
     (case (if existsRemotely
            then (case listConfigs w (ch_name channel) of
                    Inr configs \<Rightarrow> Inr (fold set_remote configs [])
                  | Inl error \<Rightarrow>
                      (case error of
                         ApiError m statusCode \<Rightarrow>
                           (if statusCode \<noteq> 404
                            then Inl (Error (''Failed to list configs for channel '' @ [CHR 39]
                                       @ ch_name channel @ [CHR 39] @ '': '' @ m))
                            else Inr [])
                       | _ \<Rightarrow> Inr []))
            else Inr []) of
        Inl e \<Rightarrow> Inl e
      | Inr remoteConfigs \<Rightarrow>
          Inr \<lparr>chp_channel = ch_name channel, chp_existsRemotely = existsRemotely,
               chp_configs = map (\<lambda>localConfig. generateConfigPlan localConfig remoteConfigs)
                                 (ch_configs channel)\<rparr>)"

definition calculateSummary ::
  "ChannelPlan list \<Rightarrow> string list \<Rightarrow> Channel list \<Rightarrow> PlanSummary" where
  "calculateSummary channelPlans remoteChannels localChannels =
     (let counts =
            fold (\<lambda>channelPlan acc.
                    fold (\<lambda>configPlan (c, u, n).
                            (case cp_status configPlan of
                               Create \<Rightarrow> (c + 1, u, n)
                             | Update \<Rightarrow> (c, u + 1, n)
                             | Unchanged \<Rightarrow> (c, u, n + 1)))
                         (chp_configs channelPlan) acc)
                 channelPlans (0, 0, 0);
          localChannelNames = new_Set (map ch_name localChannels);
          unmanaged = length (filter (\<lambda>name. name \<notin> set localChannelNames) remoteChannels)
      in \<lparr>creates = fst counts, updates = fst (snd counts), unchanged = snd (snd counts),
          unmanaged = unmanaged\<rparr>)"

definition generatePlan :: "world \<Rightarrow> ProjectConfig \<Rightarrow> PlanOptions \<Rightarrow> exn + Plan" where
  "generatePlan w config options =
     (case validateProject w of
        Inl e \<Rightarrow> Inl e
      | Inr validationResult \<Rightarrow>
     if \<not> vr_valid validationResult
     then Inl (PlanValidationError ''Validation failed. Fix errors before planning.''
                 (concat (map (\<lambda>ch. map (\<lambda>e. (cvr_name ch, ve_filePath e @ '': '' @ ve_message e))
                                         (cvr_errors ch))
                              (filter (\<lambda>ch. \<not> cvr_valid ch) (vr_channels validationResult)))))
     else
     (case discoverChannels w of
        Inl e \<Rightarrow> Inl e
      | Inr discovered \<Rightarrow>
     (case (case opt_channel options of
              None \<Rightarrow> Inr discovered
            | Some c \<Rightarrow>
                if c = [] then Inr discovered
                else (let channels = filter (\<lambda>ch. ch_name ch = c) discovered
                      in if length channels = 0
                         then Inl (Error (''Channel '' @ [CHR 39] @ c @ [CHR 39] @ '' not found''))
                         else Inr channels)) of
        Inl e \<Rightarrow> Inl e
      | Inr selected \<Rightarrow>
     (case loadAllChannelConfigs w selected of
        Inl e \<Rightarrow> Inl e
      | Inr channels \<Rightarrow>
     (case getEnvironment w of
        Inl e \<Rightarrow> Inl e
      | Inr env \<Rightarrow>
     (case substituteSecretsInChannels w channels env of
        Inl e \<Rightarrow> Inl e
      | Inr channelsWithSecrets \<Rightarrow>
     (let token = (case map_of env ''NCOCTL_API_TOKEN'' of
                     Some t \<Rightarrow> Some t
                   | None \<Rightarrow> api_token config)
      in if token = None \<or> token = Some []
         then Inl (Error ''API token required. Set NCOCTL_API_TOKEN environment variable or api.token in config.'')
         else
     (case (case listChannels w of
              Inr remoteChannelList \<Rightarrow> Inr (new_Set (map rch_name remoteChannelList))
            | Inl (ApiError m statusCode) \<Rightarrow>
                Inl (Error (''Failed to list remote channels: '' @ m))
            | Inl error \<Rightarrow> Inl error) of
        Inl e \<Rightarrow> Inl e
      | Inr remoteChannels \<Rightarrow>
     (case mapM (\<lambda>channel. generateChannelPlan w channel (ch_name channel \<in> set remoteChannels))
                channelsWithSecrets of
        Inl e \<Rightarrow> Inl e
      | Inr channelPlans \<Rightarrow>
          Inr \<lparr>plan_merchant = merchant config, plan_timestamp = now w,
               plan_channels = channelPlans,
               plan_summary = calculateSummary channelPlans remoteChannels channelsWithSecrets\<rparr>)))))))))"

section \<open>Compare service (compare/service.ts)\<close>

datatype comparestatus = Identical | Different | OnlyInA | OnlyInB

record ConfigComparison =
  cmp_name :: string
  cmp_status :: comparestatus
  cmp_diffs :: "FieldDiff list"
  cmp_configA :: "obj option"
  cmp_configB :: "obj option"

record CompareSummary =
  identical :: nat
  different :: nat
  onlyInA :: nat
  onlyInB :: nat

record CompareResult =
  res_channelA :: string
  res_channelB :: string
  res_timestamp :: string
  res_configs :: "ConfigComparison list"
  res_summary :: CompareSummary

text \<open>In \<open>compareConfig\<close> a configuration that neither channel has cannot come from the
  caller, which walks the union of the two name sets; the diff of two missing values is
  empty, so the last branch of the source gives \<^verbatim>\<open>identical\<close> there.\<close>

definition compareConfig :: "string \<Rightarrow> obj option \<Rightarrow> obj option \<Rightarrow> ConfigComparison" where
  "compareConfig name configA configB =
     (case (configA, configB) of
        (Some a, None) \<Rightarrow>
          \<lparr>cmp_name = name, cmp_status = OnlyInA, cmp_diffs = [],
           cmp_configA = configA, cmp_configB = None\<rparr>
      | (None, Some b) \<Rightarrow>
          \<lparr>cmp_name = name, cmp_status = OnlyInB, cmp_diffs = [],
           cmp_configA = None, cmp_configB = configB\<rparr>
      | (None, None) \<Rightarrow>
          \<lparr>cmp_name = name, cmp_status = Identical, cmp_diffs = [],
           cmp_configA = configA, cmp_configB = configB\<rparr>
      | (Some a, Some b) \<Rightarrow>
          (let diffs = diffConfigs a b
           in if length diffs = 0
              then \<lparr>cmp_name = name, cmp_status = Identical, cmp_diffs = [],
                    cmp_configA = configA, cmp_configB = configB\<rparr>
              else \<lparr>cmp_name = name, cmp_status = Different, cmp_diffs = diffs,
                    cmp_configA = configA, cmp_configB = configB\<rparr>))"

definition calculateSummary_compare ::
  "ConfigComparison list \<Rightarrow> nat \<Rightarrow> nat \<Rightarrow> nat \<Rightarrow> CompareSummary" where
  "calculateSummary_compare comparisons totalA totalB totalUnique =
     (let counts =
            fold (\<lambda>comparison (i, d, a, b).
                    (case cmp_status comparison of
                       Identical \<Rightarrow> (i + 1, d, a, b)
                     | Different \<Rightarrow> (i, d + 1, a, b)
                     | OnlyInA \<Rightarrow> (i, d, a + 1, b)
                     | OnlyInB \<Rightarrow> (i, d, a, b + 1)))
                 comparisons (0, 0, 0, 0);
          identical = (if length comparisons < totalUnique
                       then totalUnique - length comparisons
                       else fst counts)
      in \<lparr>identical = identical, different = fst (snd counts),
          onlyInA = fst (snd (snd counts)), onlyInB = snd (snd (snd counts))\<rparr>)"

text \<open>The loop of \<open>compareChannels\<close> over the union of the configuration names.\<close>

fun compareChannels_loop ::
  "string list \<Rightarrow> (string \<times> obj) list \<Rightarrow> (string \<times> obj) list \<Rightarrow> bool \<Rightarrow> ConfigComparison list" where
  "compareChannels_loop [] configsA configsB differencesOnly = []"
| "compareChannels_loop (name # rest) configsA configsB differencesOnly =
     (let comparison = compareConfig name (map_of configsA name) (map_of configsB name)
      in if differencesOnly \<and> cmp_status comparison = Identical
         then compareChannels_loop rest configsA configsB differencesOnly
         else comparison # compareChannels_loop rest configsA configsB differencesOnly)"

definition compareChannels :: "world \<Rightarrow> string \<Rightarrow> string \<Rightarrow> bool \<Rightarrow> exn + CompareResult" where
  "compareChannels w channelA channelB differencesOnly =
     (case discoverChannels w of
        Inl e \<Rightarrow> Inl e
      | Inr channels \<Rightarrow>
     (case loadAllChannelConfigs w channels of
        Inl e \<Rightarrow> Inl e
      | Inr loadedChannels \<Rightarrow>
     (case List.find (\<lambda>ch. ch_name ch = channelA) loadedChannels of
        None \<Rightarrow> Inl (Error (''Channel '' @ [CHR 39] @ channelA @ [CHR 39] @ '' not found''))
      | Some chA \<Rightarrow>
     (case List.find (\<lambda>ch. ch_name ch = channelB) loadedChannels of
        None \<Rightarrow> Inl (Error (''Channel '' @ [CHR 39] @ channelB @ [CHR 39] @ '' not found''))
      | Some chB \<Rightarrow>
     (let configsA = new_Map (map (\<lambda>c. (cfg_name c, cfg_merged c)) (ch_configs chA));
          configsB = new_Map (map (\<lambda>c. (cfg_name c, cfg_merged c)) (ch_configs chB));
          allConfigNames = new_Set (map fst configsA @ map fst configsB);
          comparisons = compareChannels_loop allConfigNames configsA configsB differencesOnly
      in Inr \<lparr>res_channelA = channelA, res_channelB = channelB, res_timestamp = now w,
              res_configs = comparisons,
              res_summary = calculateSummary_compare comparisons (length configsA)
                              (length configsB) (length allConfigNames)\<rparr>)))))"

section \<open>Notions used in the statements\<close>

text \<open>A value none of whose keys, at any depth, is the name of a member of
  \<^verbatim>\<open>Object.prototype\<close>; and the same for the top-level keys of an object only.\<close>

fun own_keys_only :: "json \<Rightarrow> bool" where
  "own_keys_only (JArr xs) = (\<forall>x \<in> set xs. own_keys_only x)"
| "own_keys_only (JObj kvs) =
     (\<forall>kv \<in> set kvs. fst kv \<notin> set Object_prototype_functions \<and> fst kv \<noteq> ''__proto__''
                       \<and> own_keys_only (snd kv))"
| "own_keys_only v = True"

definition own_keys_top :: "obj \<Rightarrow> bool" where
  "own_keys_top ob =
     (\<forall>kv \<in> set ob. fst kv \<notin> set Object_prototype_functions \<and> fst kv \<noteq> ''__proto__'')"

text \<open>A configuration object without its top-level \<^verbatim>\<open>$schema\<close> entry.\<close>

definition del_schema :: "obj \<Rightarrow> obj" where
  "del_schema ob = filter (\<lambda>kv. fst kv \<noteq> ''$schema'') ob"

text \<open>The local channels a run plans: all discovered channels, or with the single-channel
  option (a non-empty \<^verbatim>\<open>options.channel\<close>) the discovered channels of that name.\<close>

definition selected_channels :: "PlanOptions \<Rightarrow> Channel list \<Rightarrow> Channel list" where
  "selected_channels options discovered =
     (case opt_channel options of
        None \<Rightarrow> discovered
      | Some c \<Rightarrow> if c = [] then discovered else filter (\<lambda>ch. ch_name ch = c) discovered)"

text \<open>Example runs: local channels \<open>no\<close> and \<open>se\<close>, each with one configuration file,
  remote channels \<open>se\<close>, \<open>no\<close> and \<open>demo\<close>; the remote holds no configuration yet.\<close>

definition example_channels :: "Channel list" where
  "example_channels =
     [\<lparr>ch_name = ''no'', ch_path = ''/p/no'', ch_configs = []\<rparr>,
      \<lparr>ch_name = ''se'', ch_path = ''/p/se'', ch_configs = []\<rparr>]"

definition example_world :: world where
  "example_world =
     \<lparr>validateProject = Inr \<lparr>vr_valid = True, vr_channels = []\<rparr>,
      discoverChannels = Inr example_channels,
      readChannelConfigs = (\<lambda>channel. Inr
         [\<lparr>cfg_name = ''x'', cfg_path = ch_path channel @ ''/x.yaml'',
           cfg_merged = [(''id'', JStr ''x''), (''a'', JNum 1)], cfg_id = Some ''x''\<rparr>]),
      getEnvironment = Inr [(''NCOCTL_API_TOKEN'', ''t'')],
      substituteSecrets = (\<lambda>config env. Inr config),
      listChannels = Inr [\<lparr>rch_name = ''se''\<rparr>, \<lparr>rch_name = ''no''\<rparr>, \<lparr>rch_name = ''demo''\<rparr>],
      listConfigs = (\<lambda>channel. Inr []),
      now = ''2026-01-30T00:00:00.000Z''\<rparr>"

definition example_config :: ProjectConfig where
  "example_config = \<lparr>merchant = ''acme'', api_baseUrl = ''https://api'', api_token = None\<rparr>"

text \<open>For the compare service: channel \<open>no\<close> holds \<open>x\<close> and \<open>y\<close>, channel \<open>se\<close> holds
  the same \<open>x\<close>, another \<open>y\<close>, and \<open>z\<close>.\<close>

definition example_compare_world :: world where
  "example_compare_world =
     example_world\<lparr>readChannelConfigs := (\<lambda>channel.
        if ch_name channel = ''no''
        then Inr [\<lparr>cfg_name = ''x'', cfg_path = ''/p/no/x.yaml'',
                   cfg_merged = [(''a'', JNum 1)], cfg_id = None\<rparr>,
                  \<lparr>cfg_name = ''y'', cfg_path = ''/p/no/y.yaml'',
                   cfg_merged = [(''b'', JNum 1)], cfg_id = None\<rparr>]
        else Inr [\<lparr>cfg_name = ''x'', cfg_path = ''/p/se/x.yaml'',
                   cfg_merged = [(''a'', JNum 1)], cfg_id = None\<rparr>,
                  \<lparr>cfg_name = ''y'', cfg_path = ''/p/se/y.yaml'',
                   cfg_merged = [(''b'', JNum 2)], cfg_id = None\<rparr>,
                  \<lparr>cfg_name = ''z'', cfg_path = ''/p/se/z.yaml'',
                   cfg_merged = [], cfg_id = None\<rparr>])\<rparr>"

section \<open>Properties of DeepMerge\<close>

lemma has_key_map_of: "has_key k ob = (map_of ob k \<noteq> None)"
  by (simp add: has_key_def map_of_eq_None_iff)

text \<open>
  C2. The claim: \<open>deepMerge base overlay\<close> is the per-key reference over the union of the
  keys; in particular a key absent from the base takes the non-null overlay value, and a key
  absent from the overlay keeps the value of the base. The code at the failing inputs, keys
  that are names of members of \<^verbatim>\<open>Object.prototype\<close>: the overlay-only key \<^verbatim>\<open>toString\<close> is
  dropped (\<^verbatim>\<open>key in result\<close> is true for the empty result), so merging \<^verbatim>\<open>{}\<close> with
  \<^verbatim>\<open>{toString: 1}\<close> gives \<^verbatim>\<open>{}\<close>; and the base-only key \<^verbatim>\<open>constructor\<close> does not keep its
  value (\<^verbatim>\<open>key in overlay\<close> is true and \<^verbatim>\<open>overlay[key]\<close> is the inherited function), so
  merging \<^verbatim>\<open>{constructor: 1}\<close> with \<^verbatim>\<open>{}\<close> stores that function under the key. For
  comparison, the third equation is the merge of \<^verbatim>\<open>{a:1,b:2}\<close> with \<^verbatim>\<open>{a:null}\<close>.
\<close>

theorem deepMerge_prototype_keys:
  "deepMerge [] [(''toString'', JNum 1)] = Some []
   \<and> deepMerge [(''constructor'', JNum 1)] [] = Some [(''constructor'', JFun ''constructor'')]
   \<and> deepMerge [(''a'', JNum 1), (''b'', JNum 2)] [(''a'', JNull)] = Some [(''b'', JNum 2)]"
  by (simp add: in_object_def get_property_def has_key_def Object_prototype_functions_def)

lemma assign_fresh: "k \<notin> set (map fst r) \<Longrightarrow> assign r k v = r @ [(k, v)]"
  by (induction r) auto

lemma assign_update: "assign r k v = AList.update k v r"
  by (induction r) auto

lemma map_of_assign: "map_of (assign r k v) = (map_of r)(k \<mapsto> v)"
  by (simp add: assign_update update_conv')

lemma distinct_assign: "distinct (map fst r) \<Longrightarrow> distinct (map fst (assign r k v))"
  by (simp add: assign_update distinct_update)

lemma cloneValue_id_aux:
  "(wf_json v \<longrightarrow> own_keys_only v \<longrightarrow> cloneValue v = Some v)"
  "((\<forall>x \<in> set xs. wf_json x \<and> own_keys_only x) \<longrightarrow> cloneValue_items xs = Some xs)"
  "(wf_json (JObj kvs) \<longrightarrow> own_keys_only (JObj kvs) \<longrightarrow> set (map fst r) \<inter> set (map fst kvs) = {}
      \<longrightarrow> cloneValue_entries kvs r = Some (r @ kvs))"
proof (induction v and xs and kvs r rule: cloneValue_cloneValue_items_cloneValue_entries.induct)
  case (8 key val rest result)
  then show ?case by (auto simp: assign_fresh)
qed auto

lemma cloneValue_id: "wf_json v \<Longrightarrow> own_keys_only v \<Longrightarrow> cloneValue v = Some v"
  using cloneValue_id_aux(1) by blast

lemma get_property_own:
  "k \<notin> set Object_prototype_functions \<Longrightarrow> get_property ob k = map_of ob k"
  by (simp add: get_property_def split: option.splits)

lemma in_object_own:
  "k \<notin> set Object_prototype_functions \<Longrightarrow> k \<noteq> ''__proto__'' \<Longrightarrow> in_object k ob = has_key k ob"
  by (simp add: in_object_def)

lemma own_lookup:
  "wf_json (JObj ob) \<Longrightarrow> own_keys_only (JObj ob) \<Longrightarrow> map_of ob k = Some v \<Longrightarrow>
   wf_json v \<and> own_keys_only v \<and> k \<notin> set Object_prototype_functions \<and> k \<noteq> ''__proto__''"
  by (auto dest!: map_of_SomeD)

lemma deepMerge_overlay_defined:
  "wf_json (JObj overlay) \<Longrightarrow> own_keys_only (JObj overlay) \<Longrightarrow>
   deepMerge_overlay overlay result \<noteq> None"
proof (induction overlay result rule: deepMerge_overlay.induct)
  case (1 result)
  then show ?case by simp
next
  case (2 key overlayValue rest result)
  from "2.prems" have r: "wf_json (JObj rest)" "own_keys_only (JObj rest)"
    and v: "cloneValue overlayValue = Some overlayValue"
    by (auto simp: cloneValue_id)
  show ?case
    using "2.IH"(1)[OF _ r] "2.IH"(2)[OF _ _ r] "2.IH"(3)[OF _ _ v r] v
    by auto
qed

lemma merge_defined:
  "wf_json (JObj base) \<longrightarrow> own_keys_only (JObj base) \<longrightarrow>
     wf_json (JObj overlay) \<longrightarrow> own_keys_only (JObj overlay) \<longrightarrow> deepMerge base overlay \<noteq> None"
  "wf_json (JObj base') \<longrightarrow> own_keys_only (JObj base') \<longrightarrow>
     wf_json (JObj overlay') \<longrightarrow> own_keys_only (JObj overlay') \<longrightarrow>
     deepMerge_base base' overlay' result \<noteq> None"
  "wf_json b \<longrightarrow> own_keys_only b \<longrightarrow> wf_json ov \<longrightarrow> own_keys_only ov \<longrightarrow> mergeValues b ov \<noteq> None"
proof (induction base overlay and base' overlay' result and b ov
       rule: deepMerge_deepMerge_base_mergeValues.induct)
  case (1 base overlay)
  show ?case
  proof (intro impI)
    assume wb: "wf_json (JObj base)" and ob: "own_keys_only (JObj base)"
      and wo: "wf_json (JObj overlay)" and oo: "own_keys_only (JObj overlay)"
    from "1.IH" wb ob wo oo obtain y where y: "deepMerge_base base overlay [] = Some y"
      by blast
    from deepMerge_overlay_defined[OF wo oo, of y] y
    show "deepMerge base overlay \<noteq> None" by simp
  qed
next
  case (2 overlay result)
  then show ?case by simp
next
  case (3 key baseValue rest overlay result)
  show ?case
  proof (intro impI)
    assume wb: "wf_json (JObj ((key, baseValue) # rest))"
      and ob: "own_keys_only (JObj ((key, baseValue) # rest))"
      and wo: "wf_json (JObj overlay)" and oo: "own_keys_only (JObj overlay)"
    from wb ob have r: "wf_json (JObj rest)" "own_keys_only (JObj rest)"
      and bv: "wf_json baseValue" "own_keys_only baseValue"
      and k: "key \<notin> set Object_prototype_functions" "key \<noteq> ''__proto__''"
      by auto
    have gp: "get_property overlay key = map_of overlay key"
      using k by (simp add: get_property_own)
    show "deepMerge_base ((key, baseValue) # rest) overlay result \<noteq> None"
    proof (cases "map_of overlay key = Some JNull")
      case True
      with "3.IH"(1)[OF True] r wo oo show ?thesis by simp
    next
      case nn: False
      show ?thesis
      proof (cases "map_of overlay key")
        case None
        have cv: "cloneValue baseValue = Some baseValue" using bv by (simp add: cloneValue_id)
        from "3.IH"(2)[OF nn k(2) _ cv] None gp r wo oo
        have "deepMerge_base rest overlay (assign result key baseValue) \<noteq> None" by simp
        with nn k None gp cv show ?thesis by simp
      next
        case (Some ovv)
        from own_lookup[OF wo oo Some] have ov: "wf_json ovv" "own_keys_only ovv" by simp_all
        from "3.IH"(3)[OF nn k(2)] Some gp bv ov
        obtain m where m: "mergeValues baseValue ovv = Some m" by auto
        from "3.IH"(4)[OF nn k(2) _ m] Some gp r wo oo
        have "deepMerge_base rest overlay (assign result key m) \<noteq> None" by simp
        with nn k Some gp m show ?thesis by simp
      qed
    qed
  qed
next
  case (4 base overlay)
  show ?case
  proof (intro impI)
    assume wb: "wf_json base" and ob: "own_keys_only base"
      and wo: "wf_json overlay" and oo: "own_keys_only overlay"
    show "mergeValues base overlay \<noteq> None"
    proof (cases "typeof base \<noteq> typeof overlay \<or> isArray base \<or> isArray overlay")
      case True
      then show ?thesis using wo oo by (auto simp: cloneValue_id)
    next
      case False
      then have t: "\<not> typeof base \<noteq> typeof overlay" and a: "\<not> (isArray base \<or> isArray overlay)"
        by auto
      show ?thesis
      proof (cases "\<exists>bo oo'. base = JObj bo \<and> overlay = JObj oo'")
        case True
        then obtain bo oo' where e: "base = JObj bo" "overlay = JObj oo'" by blast
        from "4.IH"[OF t a refl e] wb ob wo oo e
        show ?thesis by (auto simp: t a)
      next
        case False
        then show ?thesis using t a
          by (cases base; cases overlay) auto
      qed
    qed
  qed
qed

lemma own_keys_top_Cons:
  "own_keys_top ((k, v) # ob) =
     (k \<notin> set Object_prototype_functions \<and> k \<noteq> ''__proto__'' \<and> own_keys_top ob)"
  by (auto simp: own_keys_top_def)

lemma own_keys_top_of: "own_keys_only (JObj ob) \<Longrightarrow> own_keys_top ob"
  by (auto simp: own_keys_top_def)

lemma deepMerge_overlay_lookup:
  "distinct (map fst overlay) \<Longrightarrow> own_keys_top overlay \<Longrightarrow>
   deepMerge_overlay overlay result = Some r \<Longrightarrow>
   map_of r k =
     (if has_key k result then map_of result k
      else (case map_of overlay k of
              None \<Rightarrow> None
            | Some ov \<Rightarrow> if ov = JNull then None else cloneValue ov))"
proof (induction overlay result arbitrary: r rule: deepMerge_overlay.induct)
  case (1 result)
  then show ?case by (simp add: has_key_map_of)
next
  case (2 key overlayValue rest result)
  from "2.prems" have d: "distinct (map fst rest)" and nk: "map_of rest key = None"
    and t: "own_keys_top rest"
    and k: "key \<notin> set Object_prototype_functions" "key \<noteq> ''__proto__''"
    by (auto simp: map_of_eq_None_iff own_keys_top_Cons)
  have io: "in_object key result = has_key key result" using k by (rule in_object_own)
  show ?case
  proof (cases "has_key key result")
    case True
    then have i: "in_object key result" by (simp add: io)
    from "2.prems"(3) i have run: "deepMerge_overlay rest result = Some r" by simp
    from "2.IH"(1)[OF i d t run] True nk show ?thesis
      by (auto simp: has_key_map_of)
  next
    case False
    then have i: "\<not> in_object key result" by (simp add: io)
    show ?thesis
    proof (cases "overlayValue = JNull")
      case True
      from "2.prems"(3) i True have run: "deepMerge_overlay rest result = Some r" by simp
      from "2.IH"(2)[OF i True d t run] False True nk show ?thesis
        by (auto simp: has_key_map_of)
    next
      case nn: False
      from "2.prems"(3) i nn obtain v where v: "cloneValue overlayValue = Some v"
        and run: "deepMerge_overlay rest (assign result key v) = Some r"
        by (auto split: option.splits)
      from "2.IH"(3)[OF i nn v d t run] False nn nk v show ?thesis
        by (auto simp: has_key_map_of map_of_assign)
    qed
  qed
qed

lemma deepMerge_overlay_keys:
  "distinct (map fst result) \<Longrightarrow> deepMerge_overlay overlay result = Some r \<Longrightarrow>
   distinct (map fst r)"
  by (induction overlay result arbitrary: r rule: deepMerge_overlay.induct)
     (auto simp: distinct_assign split: if_splits option.splits)

lemma deepMerge_base_keys:
  "distinct (map fst result) \<Longrightarrow> deepMerge_base base overlay result = Some r \<Longrightarrow>
   distinct (map fst r)"
proof (induction base arbitrary: result)
  case Nil
  then show ?case by simp
next
  case (Cons a base)
  obtain key baseValue where a: "a = (key, baseValue)" by (cases a)
  from Cons.prems show ?case
    unfolding a
    by (auto simp: distinct_assign split: if_splits option.splits dest!: Cons.IH[rotated])
qed

lemma deepMerge_base_lookup:
  "distinct (map fst base) \<Longrightarrow> own_keys_top base \<Longrightarrow>
   deepMerge_base base overlay result = Some r \<Longrightarrow>
   map_of r k =
     (case map_of base k of
        None \<Rightarrow> map_of result k
      | Some bv \<Rightarrow>
          (case map_of overlay k of
             None \<Rightarrow> cloneValue bv
           | Some ov \<Rightarrow> if ov = JNull then map_of result k else mergeValues bv ov))"
proof (induction base arbitrary: result)
  case Nil
  then show ?case by simp
next
  case (Cons a base)
  obtain key baseValue where a: "a = (key, baseValue)" by (cases a)
  from Cons.prems have d: "distinct (map fst base)" and nk: "map_of base key = None"
    and t: "own_keys_top base"
    and k: "key \<notin> set Object_prototype_functions" "key \<noteq> ''__proto__''"
    by (auto simp: a map_of_eq_None_iff own_keys_top_Cons)
  have gp: "get_property overlay key = map_of overlay key"
    using k by (simp add: get_property_own)
  show ?case
  proof (cases "map_of overlay key = Some JNull")
    case True
    from Cons.prems(3) True have run: "deepMerge_base base overlay result = Some r"
      by (simp add: a)
    from Cons.IH[OF d t run] True nk show ?thesis
      by (auto simp: a split: option.splits)
  next
    case nn: False
    show ?thesis
    proof (cases "map_of overlay key")
      case None
      from Cons.prems(3) nn k None gp obtain v where v: "cloneValue baseValue = Some v"
        and run: "deepMerge_base base overlay (assign result key v) = Some r"
        by (auto simp: a split: option.splits)
      from Cons.IH[OF d t run] None nk v show ?thesis
        by (auto simp: a map_of_assign split: option.splits)
    next
      case (Some ovv)
      from Cons.prems(3) nn k Some gp obtain v where v: "mergeValues baseValue ovv = Some v"
        and run: "deepMerge_base base overlay (assign result key v) = Some r"
        by (auto simp: a split: option.splits)
      from Cons.IH[OF d t run] Some nn nk v show ?thesis
        by (auto simp: a map_of_assign split: option.splits simp del: mergeValues.simps)
    qed
  qed
qed

lemma mergeValues_unfold:
  "wf_json ov \<Longrightarrow> own_keys_only ov \<Longrightarrow>
   mergeValues bv ov =
     (if typeof bv \<noteq> typeof ov then Some ov
      else if isArray bv \<or> isArray ov then Some ov
      else (case (bv, ov) of
              (JObj b, JObj ob) \<Rightarrow> map_option JObj (deepMerge b ob)
            | _ \<Rightarrow> Some ov))"
  by (simp add: cloneValue_id)

lemma deepMerge_spec_Some:
  "map_of overlay k = Some ov \<Longrightarrow> ov \<noteq> JNull \<Longrightarrow> wf_json ov \<Longrightarrow> own_keys_only ov \<Longrightarrow>
   deepMerge_spec base overlay k =
     (case map_of base k of None \<Rightarrow> Some ov | Some bv \<Rightarrow> mergeValues bv ov)"
  by (simp add: deepMerge_spec_def mergeValues_unfold del: mergeValues.simps
           split: option.splits json.splits)

text \<open>
  Away from such keys the code does what its comments say. For objects that hold every key
  once and none of whose keys, at any depth, is the name of a member of
  \<^verbatim>\<open>Object.prototype\<close>, the merge has a result, the result holds every key once, and under
  every key it holds what the per-key reference \<open>deepMerge_spec\<close> says.
\<close>

lemma deepMerge_on_own_keys:
  assumes wb: "wf_json (JObj base)" and wo: "wf_json (JObj overlay)"
    and ob: "own_keys_only (JObj base)" and oo: "own_keys_only (JObj overlay)"
  shows "\<exists>r. deepMerge base overlay = Some r \<and> distinct (map fst r)
             \<and> (\<forall>k. map_of r k = deepMerge_spec base overlay k)"
proof -
  from merge_defined(1) wb wo ob oo obtain r where r: "deepMerge base overlay = Some r"
    by blast
  then obtain r1 where r1: "deepMerge_base base overlay [] = Some r1"
    and r2: "deepMerge_overlay overlay r1 = Some r"
    by (auto split: option.splits)
  from wb wo have db: "distinct (map fst base)" and dov: "distinct (map fst overlay)"
    by simp_all
  have dr: "distinct (map fst r)"
    using deepMerge_overlay_keys[OF deepMerge_base_keys[OF _ r1] r2] by simp
  have "map_of r k = deepMerge_spec base overlay k" for k
  proof -
    have b: "map_of r1 k =
       (case map_of base k of
          None \<Rightarrow> None
        | Some bv \<Rightarrow>
            (case map_of overlay k of
               None \<Rightarrow> cloneValue bv
             | Some ov \<Rightarrow> if ov = JNull then None else mergeValues bv ov))"
      using deepMerge_base_lookup[OF db own_keys_top_of[OF ob] r1, of k]
      by (simp split: option.splits)
    have m: "map_of r k =
       (if has_key k r1 then map_of r1 k
        else (case map_of overlay k of
                None \<Rightarrow> None
              | Some ov \<Rightarrow> if ov = JNull then None else cloneValue ov))"
      using deepMerge_overlay_lookup[OF dov own_keys_top_of[OF oo] r2, of k] .
    show ?thesis
    proof (cases "map_of overlay k")
      case None
      then show ?thesis
        using m b own_lookup[OF wb ob]
        by (auto simp: deepMerge_spec_def has_key_map_of cloneValue_id split: option.splits)
    next
      case (Some ov)
      from own_lookup[OF wo oo Some] have wov: "wf_json ov" "own_keys_only ov" by simp_all
      show ?thesis
      proof (cases "ov = JNull")
        case True
        with Some show ?thesis
          using m b by (auto simp: deepMerge_spec_def has_key_map_of split: option.splits)
      next
        case False
        note sp = deepMerge_spec_Some[OF Some False wov, of base]
        show ?thesis
        proof (cases "map_of base k")
          case None
          with m b Some False wov show ?thesis
            by (simp add: sp has_key_map_of cloneValue_id)
        next
          case (Some bv)
          from own_lookup[OF wb ob Some] have "wf_json bv" "own_keys_only bv" by simp_all
          with merge_defined(3)[of bv ov] wov obtain mv where mv: "mergeValues bv ov = Some mv"
            by blast
          with m b Some \<open>map_of overlay k = Some ov\<close> False show ?thesis
            by (simp add: sp has_key_map_of del: mergeValues.simps)
        qed
      qed
    qed
  qed
  with r dr show ?thesis by blast
qed

section \<open>Properties of the diff engine\<close>

lemma deepDiff_obj:
  "deepDiff (JObj lo) (JObj ro) p =
     concat (map (\<lambda>kv.
        (case map_of ro (fst kv) of
           Some rv \<Rightarrow> deepDiff (snd kv) rv (p @ [Key (fst kv)])
         | None \<Rightarrow> [DiffDeleted (p @ [Key (fst kv)]) (snd kv)])) lo)
     @ map (\<lambda>kv. DiffNew (p @ [Key (fst kv)]) (snd kv))
         (filter (\<lambda>kv. \<not> has_key (fst kv) lo) ro)"
  by (subst deepDiff.simps) simp

lemma deepDiff_arr:
  "deepDiff (JArr ls) (JArr rs) p =
     map (\<lambda>i. DiffArray p i (DiffNew [] (rs ! i))) (rev [length ls ..< length rs])
     @ map (\<lambda>j. DiffArray p j (DiffDeleted [] (ls ! j))) (rev [length rs ..< length ls])
     @ concat (map (\<lambda>i. deepDiff (ls ! i) (rs ! i) (p @ [Idx i]))
         (rev [0 ..< min (length ls) (length rs)]))"
  by (subst deepDiff.simps) simp

lemma deepDiff_scalar:
  "realTypeOf l = realTypeOf r \<Longrightarrow> \<not> isArray l \<Longrightarrow> (\<forall>kvs. l \<noteq> JObj kvs) \<Longrightarrow>
   deepDiff l r p = (if l \<noteq> r then [DiffEdit p l r] else [])"
  by (subst deepDiff.simps) (cases l; cases r; simp)

lemma deepDiff_kind:
  "realTypeOf l \<noteq> realTypeOf r \<Longrightarrow> deepDiff l r p = [DiffEdit p l r]"
  by (subst deepDiff.simps) simp

lemma deepDiff_refl: "wf_json v \<Longrightarrow> deepDiff v v p = []"
proof (induction v arbitrary: p)
  case (JArr xs)
  then show ?case by (simp add: deepDiff_arr)
next
  case (JObj kvs)
  have d: "distinct (map fst kvs)" using JObj.prems by simp
  have "\<And>kv. kv \<in> set kvs \<Longrightarrow>
          (case map_of kvs (fst kv) of
             Some rv \<Rightarrow> deepDiff (snd kv) rv (p @ [Key (fst kv)])
           | None \<Rightarrow> [DiffDeleted (p @ [Key (fst kv)]) (snd kv)]) = []"
  proof -
    fix kv assume kv: "kv \<in> set kvs"
    then have "map_of kvs (fst kv) = Some (snd kv)"
      using d map_of_is_SomeI[of kvs "fst kv" "snd kv"] by simp
    moreover have "deepDiff (snd kv) (snd kv) (p @ [Key (fst kv)]) = []"
      using JObj.IH[of kv "snd kv"] kv JObj.prems by (cases kv) auto
    ultimately show "(case map_of kvs (fst kv) of
             Some rv \<Rightarrow> deepDiff (snd kv) rv (p @ [Key (fst kv)])
           | None \<Rightarrow> [DiffDeleted (p @ [Key (fst kv)]) (snd kv)]) = []" by simp
  qed
  moreover have "filter (\<lambda>kv. \<not> has_key (fst kv) kvs) kvs = []"
    by (auto simp: has_key_def filter_empty_conv)
  ultimately show ?case by (simp add: deepDiff_obj)
qed (simp_all add: deepDiff_scalar)

lemma deepDiff_prefix: "d \<in> set (deepDiff l r p) \<Longrightarrow> \<exists>q. diff_path d = p @ q"
proof (induction l r p arbitrary: d rule: deepDiff.induct)
  case (1 lhs rhs currentPath)
  show ?case
  proof (cases "realTypeOf lhs \<noteq> realTypeOf rhs")
    case True
    with "1.prems" show ?thesis by (simp add: deepDiff_kind)
  next
    case same: False
    show ?thesis
    proof (cases lhs)
      case (JArr ls)
      with same obtain rs where rs: "rhs = JArr rs" by (cases rhs) auto
      from "1.prems" show ?thesis
        unfolding JArr rs deepDiff_arr
        using "1.IH"(1)[OF same _ JArr rs] 
        apply auto
        by (metis append.assoc)
    next
      case (JObj lo)
      with same obtain ro where ro: "rhs = JObj ro" by (cases rhs) auto
      from "1.prems" show ?thesis
        unfolding JObj ro deepDiff_obj
        using "1.IH"(2)[OF same _ JObj ro]
        apply (auto split: option.splits)
        by (metis append.assoc)
    qed (use same "1.prems" in \<open>auto simp: deepDiff_scalar split: if_splits\<close>)
  qed
qed

lemma diffConfigs_unfold:
  "diffConfigs local remote =
     map convertDiff (filter isRelevantDiff (deepDiff (JObj remote) (JObj local) []))"
  by (simp add: diffConfigs_def Let_def)

text \<open>
  C6 (amended). For every configuration object \<open>local\<close>, \<open>diffConfigs local {}\<close> is exactly
  one diff of type \<^verbatim>\<open>add\<close> per top-level key of \<open>local\<close> other than \<^verbatim>\<open>$schema\<close>, in key
  order, at path \<^verbatim>\<open>/key\<close>, with no old value and with the key's local value as new value;
  so it holds no \<^verbatim>\<open>remove\<close> and no \<^verbatim>\<open>change\<close> entry. A top-level \<^verbatim>\<open>$schema\<close> key is not
  reported.
\<close>

theorem diffConfigs_empty_remote:
  "diffConfigs local [] =
     map (\<lambda>kv. \<lparr>fd_path = ''/'' @ fst kv, fd_type = Add,
                 fd_oldValue = None, fd_newValue = Some (snd kv)\<rparr>)
         (filter (\<lambda>kv. fst kv \<noteq> ''$schema'') local)"
proof -
  have "deepDiff (JObj []) (JObj local) [] = map (\<lambda>kv. DiffNew [Key (fst kv)] (snd kv)) local"
    by (simp add: deepDiff_obj has_key_def)
  moreover have "filter isRelevantDiff (map (\<lambda>kv. DiffNew [Key (fst kv)] (snd kv)) local)
      = map (\<lambda>kv. DiffNew [Key (fst kv)] (snd kv)) (filter (\<lambda>kv. fst kv \<noteq> ''$schema'') local)"
    by (induction local) (auto simp: isRelevantDiff_def)
  ultimately show ?thesis
    by (simp add: diffConfigs_unfold)
qed

text \<open>The claim as stated fails for a local object with a \<^verbatim>\<open>$schema\<close> key: two top-level
  keys, one diff.\<close>

theorem diffConfigs_empty_remote_counterexample:
  "has_key ''$schema'' [(''$schema'', JStr ''s''), (''a'', JNum 1)]
   \<and> diffConfigs [(''$schema'', JStr ''s''), (''a'', JNum 1)] []
       = [\<lparr>fd_path = ''/a'', fd_type = Add, fd_oldValue = None, fd_newValue = Some (JNum 1)\<rparr>]"
  by (simp add: diffConfigs_unfold deepDiff_obj has_key_def isRelevantDiff_def)

lemma relevant_prefix:
  "d \<in> set (deepDiff l r [Key k]) \<Longrightarrow> isRelevantDiff d = (k \<noteq> ''$schema'')"
  by (auto dest!: deepDiff_prefix simp: isRelevantDiff_def)

lemma filter_all: "(\<And>x. x \<in> set xs \<Longrightarrow> P x) \<Longrightarrow> filter P xs = xs"
  by (induction xs) auto

lemma filter_none: "(\<And>x. x \<in> set xs \<Longrightarrow> \<not> P x) \<Longrightarrow> filter P xs = []"
  by (induction xs) auto

lemma del_schema_Nil: "del_schema [] = []"
  by (simp add: del_schema_def)

lemma del_schema_Cons:
  "del_schema (kv # ob) = (if fst kv = ''$schema'' then del_schema ob else kv # del_schema ob)"
  by (simp add: del_schema_def)

lemma del_schema_idem: "del_schema (del_schema ob) = del_schema ob"
  by (simp add: del_schema_def)

lemma map_of_del_schema: "k \<noteq> ''$schema'' \<Longrightarrow> map_of (del_schema ob) k = map_of ob k"
  by (induction ob) (auto simp: del_schema_Nil del_schema_Cons)

lemma map_of_del_schema_None: "map_of (del_schema ob) ''$schema'' = None"
  by (induction ob) (auto simp: del_schema_Nil del_schema_Cons)

lemma has_key_del_schema: "k \<noteq> ''$schema'' \<Longrightarrow> has_key k (del_schema ob) = has_key k ob"
  by (simp add: has_key_map_of map_of_del_schema)

lemma relevant_entry:
  "filter isRelevantDiff
     (case map_of ro k of
        Some rv \<Rightarrow> deepDiff v rv [Key k]
      | None \<Rightarrow> [DiffDeleted [Key k] v])
   = (if k = ''$schema'' then []
      else (case map_of ro k of
              Some rv \<Rightarrow> deepDiff v rv [Key k]
            | None \<Rightarrow> [DiffDeleted [Key k] v]))"
proof (cases "map_of ro k")
  case None
  then show ?thesis by (simp add: isRelevantDiff_def)
next
  case (Some rv)
  have "k = ''$schema'' \<Longrightarrow> filter isRelevantDiff (deepDiff v rv [Key k]) = []"
    by (rule filter_none) (simp add: relevant_prefix)
  moreover have "k \<noteq> ''$schema'' \<Longrightarrow>
      filter isRelevantDiff (deepDiff v rv [Key k]) = deepDiff v rv [Key k]"
    by (rule filter_all) (simp add: relevant_prefix)
  ultimately show ?thesis using Some by simp
qed

lemma relevant_left:
  "filter isRelevantDiff
     (concat (map (\<lambda>kv.
        (case map_of ro (fst kv) of
           Some rv \<Rightarrow> deepDiff (snd kv) rv [Key (fst kv)]
         | None \<Rightarrow> [DiffDeleted [Key (fst kv)] (snd kv)])) lo))
   = concat (map (\<lambda>kv.
        (case map_of (del_schema ro) (fst kv) of
           Some rv \<Rightarrow> deepDiff (snd kv) rv [Key (fst kv)]
         | None \<Rightarrow> [DiffDeleted [Key (fst kv)] (snd kv)])) (del_schema lo))"
proof (induction lo)
  case Nil
  then show ?case by (simp add: del_schema_Nil)
next
  case (Cons kv lo)
  then show ?case
    by (simp add: del_schema_Cons relevant_entry map_of_del_schema)
qed

lemma relevant_right:
  "filter isRelevantDiff
     (map (\<lambda>kv. DiffNew [Key (fst kv)] (snd kv))
        (filter (\<lambda>kv. \<not> has_key (fst kv) lo) ro))
   = map (\<lambda>kv. DiffNew [Key (fst kv)] (snd kv))
        (filter (\<lambda>kv. \<not> has_key (fst kv) (del_schema lo)) (del_schema ro))"
proof (induction ro)
  case Nil
  then show ?case by (simp add: del_schema_Nil)
next
  case (Cons kv ro)
  then show ?case
    by (simp add: del_schema_Cons has_key_del_schema isRelevantDiff_def)
qed

lemma relevant_del_schema:
  "filter isRelevantDiff (deepDiff (JObj lo) (JObj ro) [])
     = deepDiff (JObj (del_schema lo)) (JObj (del_schema ro)) []"
  using relevant_left[of ro lo] relevant_right[of lo ro]
  by (simp add: deepDiff_obj cong: option.case_cong)

lemma deepDiff_same_map:
  assumes "wf_json (JObj lo)" and "wf_json (JObj ro)" and "map_of lo = map_of ro"
  shows "deepDiff (JObj lo) (JObj ro) p = []"
proof -
  have "\<And>kv. kv \<in> set lo \<Longrightarrow>
          (case map_of ro (fst kv) of
             Some rv \<Rightarrow> deepDiff (snd kv) rv (p @ [Key (fst kv)])
           | None \<Rightarrow> [DiffDeleted (p @ [Key (fst kv)]) (snd kv)]) = []"
  proof -
    fix kv assume kv: "kv \<in> set lo"
    then have "map_of lo (fst kv) = Some (snd kv)"
      using assms(1) map_of_is_SomeI[of lo "fst kv" "snd kv"] by simp
    moreover have "wf_json (snd kv)" using kv assms(1) by simp
    ultimately show "(case map_of ro (fst kv) of
             Some rv \<Rightarrow> deepDiff (snd kv) rv (p @ [Key (fst kv)])
           | None \<Rightarrow> [DiffDeleted (p @ [Key (fst kv)]) (snd kv)]) = []"
      using assms(3) by (simp add: deepDiff_refl)
  qed
  moreover have "filter (\<lambda>kv. \<not> has_key (fst kv) lo) ro = []"
  proof (rule filter_none)
    fix kv assume "kv \<in> set ro"
    then have "map_of ro (fst kv) \<noteq> None"
      by (metis domIff dom_map_of_conv_image_fst image_eqI)
    then show "\<not> \<not> has_key (fst kv) lo" using assms(3) by (simp add: has_key_map_of)
  qed
  ultimately show ?thesis by (simp add: deepDiff_obj)
qed

lemma wf_del_schema: "wf_json (JObj ob) \<Longrightarrow> wf_json (JObj (del_schema ob))"
  by (simp add: del_schema_def distinct_map_filter)

text \<open>
  C7. \<open>diffConfigs\<close> never reports a diff for the top-level key \<^verbatim>\<open>$schema\<close>, whatever the
  change: its result is the result for the two objects with their \<^verbatim>\<open>$schema\<close> entries erased.
  Consequently, for two configuration objects (each key held once) that agree under every
  key other than \<^verbatim>\<open>$schema\<close>, \<open>diffConfigs A B = []\<close>.
\<close>

theorem diffConfigs_schema_suppressed:
  assumes "wf_json (JObj A)" and "wf_json (JObj B)"
  shows "diffConfigs A B = diffConfigs (del_schema A) (del_schema B)
         \<and> ((\<forall>k. k \<noteq> ''$schema'' \<longrightarrow> map_of A k = map_of B k) \<longrightarrow> diffConfigs A B = [])"
proof
  have rel: "diffConfigs A B
               = map convertDiff (deepDiff (JObj (del_schema B)) (JObj (del_schema A)) [])"
    by (simp add: diffConfigs_unfold relevant_del_schema)
  show "diffConfigs A B = diffConfigs (del_schema A) (del_schema B)"
    by (simp add: diffConfigs_unfold relevant_del_schema del_schema_idem)
  show "(\<forall>k. k \<noteq> ''$schema'' \<longrightarrow> map_of A k = map_of B k) \<longrightarrow> diffConfigs A B = []"
  proof
    assume same: "\<forall>k. k \<noteq> ''$schema'' \<longrightarrow> map_of A k = map_of B k"
    have "map_of (del_schema B) = map_of (del_schema A)"
    proof
      fix k show "map_of (del_schema B) k = map_of (del_schema A) k"
        using same by (cases "k = ''$schema''") (simp_all add: map_of_del_schema map_of_del_schema_None)
    qed
    then have "deepDiff (JObj (del_schema B)) (JObj (del_schema A)) [] = []"
      using assms by (intro deepDiff_same_map wf_del_schema)
    then show "diffConfigs A B = []" by (simp add: rel)
  qed
qed

theorem diffConfigs_schema_suppressed_witness:
  "wf_json (JObj [(''$schema'', JStr ''v1''), (''a'', JNum 1)])
   \<and> wf_json (JObj [(''a'', JNum 1), (''$schema'', JStr ''v2'')])
   \<and> diffConfigs [(''$schema'', JStr ''v1''), (''a'', JNum 1)]
                  [(''a'', JNum 1), (''$schema'', JStr ''v2'')] = []"
proof -
  have a: "wf_json (JObj [(''$schema'', JStr ''v1''), (''a'', JNum 1)])" by simp
  have b: "wf_json (JObj [(''a'', JNum 1), (''$schema'', JStr ''v2'')])" by simp
  have same: "\<forall>k. k \<noteq> ''$schema'' \<longrightarrow>
      map_of [(''$schema'', JStr ''v1''), (''a'', JNum 1)] k
        = map_of [(''a'', JNum 1), (''$schema'', JStr ''v2'')] k"
    by simp
  show ?thesis
    using diffConfigs_schema_suppressed[OF a b] same a b by blast
qed

section \<open>Properties of the per-configuration plan and of the schema gate\<close>

lemmas eval_diff = diffConfigs_unfold deepDiff_obj deepDiff_arr deepDiff_scalar deepDiff_kind
  has_key_def isRelevantDiff_def

text \<open>
  C1 (amended). With no remote object under its key, the local configuration \<^verbatim>\<open>{a:1,b:2}\<close>
  is planned as \<^verbatim>\<open>create\<close> with exactly two \<^verbatim>\<open>add\<close> diffs. A local configuration that
  carries the \<^verbatim>\<open>id\<close> of its remote counterpart, \<^verbatim>\<open>{id:x,a:1,b:2}\<close>, is \<^verbatim>\<open>unchanged\<close> against
  the remote \<^verbatim>\<open>{id:x,a:1,b:2}\<close>, and against the remote \<^verbatim>\<open>{id:x,a:1,b:3}\<close> it is an
  \<^verbatim>\<open>update\<close> with exactly one \<^verbatim>\<open>change\<close> diff, at \<^verbatim>\<open>/b\<close>, old value 3, new value 2.
  For the local \<^verbatim>\<open>{a:1,b:2}\<close> without \<^verbatim>\<open>id\<close>, matched by its name, the field \<^verbatim>\<open>id\<close> that
  only the remote object has is itself reported, as a \<^verbatim>\<open>remove\<close> diff at \<^verbatim>\<open>/id\<close>: against
  \<^verbatim>\<open>{id:x,a:1,b:3}\<close> the plan is an \<^verbatim>\<open>update\<close> with that diff and the change at \<^verbatim>\<open>/b\<close>.
  The four equations below are, in this order: unchanged, create, update with \<^verbatim>\<open>id\<close>,
  update without \<^verbatim>\<open>id\<close>.
\<close>

theorem plan_classification:
  "generateConfigPlan
     \<lparr>cfg_name = ''x'', cfg_path = ''se/x.yaml'',
      cfg_merged = [(''id'', JStr ''x''), (''a'', JNum 1), (''b'', JNum 2)], cfg_id = Some ''x''\<rparr>
     (fold set_remote [[(''id'', JStr ''x''), (''a'', JNum 1), (''b'', JNum 2)]] [])
   = \<lparr>cp_name = ''x'', cp_status = Unchanged, cp_diffs = []\<rparr>
   \<and> generateConfigPlan
     \<lparr>cfg_name = ''x'', cfg_path = ''se/x.yaml'',
      cfg_merged = [(''a'', JNum 1), (''b'', JNum 2)], cfg_id = None\<rparr>
     (fold set_remote [] [])
   = \<lparr>cp_name = ''x'', cp_status = Create,
      cp_diffs = [\<lparr>fd_path = ''/a'', fd_type = Add, fd_oldValue = None, fd_newValue = Some (JNum 1)\<rparr>,
                  \<lparr>fd_path = ''/b'', fd_type = Add, fd_oldValue = None, fd_newValue = Some (JNum 2)\<rparr>]\<rparr>
   \<and> generateConfigPlan
     \<lparr>cfg_name = ''x'', cfg_path = ''se/x.yaml'',
      cfg_merged = [(''id'', JStr ''x''), (''a'', JNum 1), (''b'', JNum 2)], cfg_id = Some ''x''\<rparr>
     (fold set_remote [[(''id'', JStr ''x''), (''a'', JNum 1), (''b'', JNum 3)]] [])
   = \<lparr>cp_name = ''x'', cp_status = Update,
      cp_diffs = [\<lparr>fd_path = ''/b'', fd_type = Change,
                   fd_oldValue = Some (JNum 3), fd_newValue = Some (JNum 2)\<rparr>]\<rparr>
   \<and> generateConfigPlan
     \<lparr>cfg_name = ''x'', cfg_path = ''se/x.yaml'',
      cfg_merged = [(''a'', JNum 1), (''b'', JNum 2)], cfg_id = None\<rparr>
     (fold set_remote [[(''id'', JStr ''x''), (''a'', JNum 1), (''b'', JNum 3)]] [])
   = \<lparr>cp_name = ''x'', cp_status = Update,
      cp_diffs = [\<lparr>fd_path = ''/id'', fd_type = Remove,
                   fd_oldValue = Some (JStr ''x''), fd_newValue = None\<rparr>,
                  \<lparr>fd_path = ''/b'', fd_type = Change,
                   fd_oldValue = Some (JNum 3), fd_newValue = Some (JNum 2)\<rparr>]\<rparr>"
  by (simp add: generateConfigPlan_def set_remote_def eval_diff)

text \<open>The claim as stated fails in its first case: local \<^verbatim>\<open>{a:1,b:2}\<close> against the matching
  remote \<^verbatim>\<open>{id:x,a:1,b:2}\<close> is an \<^verbatim>\<open>update\<close>, with one \<^verbatim>\<open>remove\<close> diff at \<^verbatim>\<open>/id\<close>.\<close>

theorem plan_classification_counterexample:
  "generateConfigPlan
     \<lparr>cfg_name = ''x'', cfg_path = ''se/x.yaml'',
      cfg_merged = [(''a'', JNum 1), (''b'', JNum 2)], cfg_id = None\<rparr>
     (fold set_remote [[(''id'', JStr ''x''), (''a'', JNum 1), (''b'', JNum 2)]] [])
   = \<lparr>cp_name = ''x'', cp_status = Update,
      cp_diffs = [\<lparr>fd_path = ''/id'', fd_type = Remove,
                   fd_oldValue = Some (JStr ''x''), fd_newValue = None\<rparr>]\<rparr>"
  by (simp add: generateConfigPlan_def set_remote_def eval_diff)

text \<open>
  C4 (amended). For every configuration plan the orchestrator produces: the status is
  \<^verbatim>\<open>create\<close> if and only if no remote object was found under the configuration's key (its
  \<^verbatim>\<open>id\<close>, else its name), and then the diffs are those against the empty object; the status
  is \<^verbatim>\<open>unchanged\<close> if and only if a remote object was found and the diffs list is empty. So
  \<^verbatim>\<open>unchanged\<close> implies an empty diffs list; the converse holds only where a remote object
  was found.
\<close>

theorem generateConfigPlan_status:
  "(cp_status (generateConfigPlan localConfig remoteConfigs) = Create
      \<longleftrightarrow> map_of remoteConfigs
            (case cfg_id localConfig of Some i \<Rightarrow> i | None \<Rightarrow> cfg_name localConfig) = None)
   \<and> (cp_status (generateConfigPlan localConfig remoteConfigs) = Unchanged
      \<longleftrightarrow> map_of remoteConfigs
            (case cfg_id localConfig of Some i \<Rightarrow> i | None \<Rightarrow> cfg_name localConfig) \<noteq> None
          \<and> cp_diffs (generateConfigPlan localConfig remoteConfigs) = [])
   \<and> (cp_status (generateConfigPlan localConfig remoteConfigs) = Unchanged
      \<longrightarrow> cp_diffs (generateConfigPlan localConfig remoteConfigs) = [])
   \<and> (cp_status (generateConfigPlan localConfig remoteConfigs) = Create
      \<longrightarrow> cp_diffs (generateConfigPlan localConfig remoteConfigs)
            = diffConfigs (cfg_merged localConfig) [])"
  by (auto simp: generateConfigPlan_def Let_def split: option.splits)

text \<open>The claim as stated fails for a local configuration whose diff against the empty object
  is empty (an empty file): with no remote object its status is \<^verbatim>\<open>create\<close>, not
  \<^verbatim>\<open>unchanged\<close>, and its diffs list is empty.\<close>

theorem generateConfigPlan_status_counterexample:
  "cp_status (generateConfigPlan
       \<lparr>cfg_name = ''x'', cfg_path = ''se/x.yaml'', cfg_merged = [], cfg_id = None\<rparr> []) = Create
   \<and> cp_diffs (generateConfigPlan
       \<lparr>cfg_name = ''x'', cfg_path = ''se/x.yaml'', cfg_merged = [], cfg_id = None\<rparr> []) = []"
  by (simp add: generateConfigPlan_def eval_diff)

theorem generateConfigPlan_status_witness:
  "cp_status (generateConfigPlan
       \<lparr>cfg_name = ''x'', cfg_path = ''se/x.yaml'',
        cfg_merged = [(''id'', JStr ''x''), (''a'', JNum 1)], cfg_id = Some ''x''\<rparr>
       [(''x'', [(''id'', JStr ''x''), (''a'', JNum 1)])]) = Unchanged
   \<and> cp_diffs (generateConfigPlan
       \<lparr>cfg_name = ''x'', cfg_path = ''se/x.yaml'',
        cfg_merged = [(''id'', JStr ''x''), (''a'', JNum 1)], cfg_id = Some ''x''\<rparr>
       [(''x'', [(''id'', JStr ''x''), (''a'', JNum 1)])]) = []"
proof -
  have st: "cp_status (generateConfigPlan
       \<lparr>cfg_name = ''x'', cfg_path = ''se/x.yaml'',
        cfg_merged = [(''id'', JStr ''x''), (''a'', JNum 1)], cfg_id = Some ''x''\<rparr>
       [(''x'', [(''id'', JStr ''x''), (''a'', JNum 1)])]) = Unchanged"
    by (simp add: generateConfigPlan_def eval_diff)
  with generateConfigPlan_status[of
       "\<lparr>cfg_name = ''x'', cfg_path = ''se/x.yaml'',
        cfg_merged = [(''id'', JStr ''x''), (''a'', JNum 1)], cfg_id = Some ''x''\<rparr>"
       "[(''x'', [(''id'', JStr ''x''), (''a'', JNum 1)])]"]
  show ?thesis by blast
qed





section \<open>Properties of the plan orchestrator\<close>

lemma mapM_Inr:
  "mapM f xs = Inr ys \<Longrightarrow> list_all2 (\<lambda>x y. f x = Inr y) xs ys"
  by (induction xs arbitrary: ys) (auto split: sum.splits)

lemma set_new_Set_aux:
  "set (fold (\<lambda>x s. if x \<in> set s then s else s @ [x]) xs acc) = set acc \<union> set xs"
  by (induction xs arbitrary: acc) auto

lemma distinct_new_Set_aux:
  "distinct acc \<Longrightarrow> distinct (fold (\<lambda>x s. if x \<in> set s then s else s @ [x]) xs acc)"
  by (induction xs arbitrary: acc) auto

lemma set_new_Set: "set (new_Set xs) = set xs"
  by (simp add: new_Set_def set_new_Set_aux)

lemma distinct_new_Set: "distinct (new_Set xs)"
  by (simp add: new_Set_def distinct_new_Set_aux)

lemma loadAll_names:
  "loadAllChannelConfigs w channels = Inr loaded \<Longrightarrow> map ch_name loaded = map ch_name channels"
proof -
  assume "loadAllChannelConfigs w channels = Inr loaded"
  then have "list_all2 (\<lambda>x y. loadChannelConfigs w x = Inr y) channels loaded"
    unfolding loadAllChannelConfigs_def by (rule mapM_Inr)
  then have "list_all2 (\<lambda>x y. ch_name y = ch_name x) channels loaded"
    by (rule list_all2_mono) (auto simp: loadChannelConfigs_def split: sum.splits)
  then show ?thesis
    by (induction rule: list_all2_induct) auto
qed

lemma substitute_names:
  "substituteSecretsInChannels w channels env = Inr channels' \<Longrightarrow>
   map ch_name channels' = map ch_name channels"
proof -
  assume "substituteSecretsInChannels w channels env = Inr channels'"
  then have "list_all2 (\<lambda>x y. ch_name y = ch_name x) channels channels'"
    unfolding substituteSecretsInChannels_def
    by (auto dest!: mapM_Inr elim!: list_all2_mono split: sum.splits)
  then show ?thesis
    by (induction rule: list_all2_induct) auto
qed

lemma generateChannelPlan_Inr:
  "generateChannelPlan w channel b = Inr cp \<Longrightarrow>
   chp_channel cp = ch_name channel \<and> length (chp_configs cp) = length (ch_configs channel)"
  by (auto simp: generateChannelPlan_def split: sum.splits if_splits)

lemma plan_channels_names:
  "mapM (\<lambda>channel. generateChannelPlan w channel (P channel)) channels = Inr channelPlans \<Longrightarrow>
   map chp_channel channelPlans = map ch_name channels"
proof -
  assume "mapM (\<lambda>channel. generateChannelPlan w channel (P channel)) channels = Inr channelPlans"
  then have "list_all2 (\<lambda>x y. chp_channel y = ch_name x) channels channelPlans"
    by (auto dest!: mapM_Inr elim!: list_all2_mono dest: generateChannelPlan_Inr)
  then show ?thesis
    by (induction rule: list_all2_induct) auto
qed

lemma count_configs:
  "fold (\<lambda>configPlan (c, u, n).
            (case cp_status configPlan of
               Create \<Rightarrow> (c + 1, u, n)
             | Update \<Rightarrow> (c, u + 1, n)
             | Unchanged \<Rightarrow> (c, u, n + 1))) cps acc = acc' \<Longrightarrow>
   fst acc' + fst (snd acc') + snd (snd acc') = fst acc + fst (snd acc) + snd (snd acc) + length cps"
proof (induction cps arbitrary: acc)
  case Nil
  then show ?case by simp
next
  case (Cons cp cps)
  obtain c u n where acc: "acc = (c, u, n)" by (cases acc) auto
  show ?case
    using Cons.IH[OF Cons.prems[simplified fold_simps]] 
    by (cases "cp_status cp") (simp_all add: acc)
qed

lemma count_channels:
  "fold (\<lambda>channelPlan acc.
            fold (\<lambda>configPlan (c, u, n).
                    (case cp_status configPlan of
                       Create \<Rightarrow> (c + 1, u, n)
                     | Update \<Rightarrow> (c, u + 1, n)
                     | Unchanged \<Rightarrow> (c, u, n + 1)))
                 (chp_configs channelPlan) acc) chps acc = acc' \<Longrightarrow>
   fst acc' + fst (snd acc') + snd (snd acc')
     = fst acc + fst (snd acc) + snd (snd acc) + (\<Sum>cp\<leftarrow>chps. length (chp_configs cp))"
proof (induction chps arbitrary: acc)
  case Nil
  then show ?case by simp
next
  case (Cons chp chps)
  show ?case
    using Cons.IH[OF Cons.prems[simplified fold_simps]] count_configs[OF refl, of "chp_configs chp" acc]
    by simp
qed

lemma calculateSummary_counts:
  "creates (calculateSummary chps remote locals) + updates (calculateSummary chps remote locals)
     + unchanged (calculateSummary chps remote locals)
   = (\<Sum>cp\<leftarrow>chps. length (chp_configs cp))"
  using count_channels[OF refl, of chps "(0, 0, 0)"]
  by (simp add: calculateSummary_def Let_def)

lemma calculateSummary_unmanaged:
  "distinct remote \<Longrightarrow>
   unmanaged (calculateSummary chps remote locals) = card (set remote - ch_name ` set locals)"
proof -
  assume d: "distinct remote"
  have "length (filter (\<lambda>name. name \<notin> ch_name ` set locals) remote)
          = card (set (filter (\<lambda>name. name \<notin> ch_name ` set locals) remote))"
    using distinct_card[of "filter (\<lambda>name. name \<notin> ch_name ` set locals) remote"] d
    by (simp del: set_filter)
  also have "set (filter (\<lambda>name. name \<notin> ch_name ` set locals) remote)
          = set remote - ch_name ` set locals" by auto
  finally show ?thesis
    by (simp add: calculateSummary_def Let_def set_new_Set)
qed

lemmas eval_plan = generatePlan_def loadAllChannelConfigs_def loadChannelConfigs_def
  substituteSecretsInChannels_def generateChannelPlan_def generateConfigPlan_def
  calculateSummary_def new_Set_def

lemma generatePlan_Inr:
  assumes "generatePlan w config options = Inr plan"
  shows "\<exists>discovered channels env channelsWithSecrets remoteChannelList channelPlans.
           discoverChannels w = Inr discovered
         \<and> loadAllChannelConfigs w (selected_channels options discovered) = Inr channels
         \<and> substituteSecretsInChannels w channels env = Inr channelsWithSecrets
         \<and> listChannels w = Inr remoteChannelList
         \<and> mapM (\<lambda>channel. generateChannelPlan w channel
                     (ch_name channel \<in> set (new_Set (map rch_name remoteChannelList))))
                 channelsWithSecrets = Inr channelPlans
         \<and> plan = \<lparr>plan_merchant = merchant config, plan_timestamp = now w,
                    plan_channels = channelPlans,
                    plan_summary = calculateSummary channelPlans
                       (new_Set (map rch_name remoteChannelList)) channelsWithSecrets\<rparr>"
  using assms
  unfolding generatePlan_def selected_channels_def Let_def
  by (auto split: sum.splits if_splits option.splits exn.splits)

lemma generatePlan_shape:
  assumes "generatePlan w config options = Inr plan"
    and "discoverChannels w = Inr discovered"
    and "listChannels w = Inr remoteChannelList"
  shows "creates (plan_summary plan) + updates (plan_summary plan) + unchanged (plan_summary plan)
           = (\<Sum>cp\<leftarrow>plan_channels plan. length (chp_configs cp))
         \<and> map chp_channel (plan_channels plan)
           = map ch_name (selected_channels options discovered)
         \<and> unmanaged (plan_summary plan)
           = card (rch_name ` set remoteChannelList
                     - ch_name ` set (selected_channels options discovered))
         \<and> (\<forall>cp \<in> set (plan_channels plan). chp_channel cp \<in> ch_name ` set discovered)"
proof -
  from generatePlan_Inr[OF assms(1)] assms(2,3)
  obtain channels env channelsWithSecrets channelPlans where
    load: "loadAllChannelConfigs w (selected_channels options discovered) = Inr channels"
    and subst: "substituteSecretsInChannels w channels env = Inr channelsWithSecrets"
    and plans: "mapM (\<lambda>channel. generateChannelPlan w channel
                     (ch_name channel \<in> set (new_Set (map rch_name remoteChannelList))))
                 channelsWithSecrets = Inr channelPlans"
    and plan: "plan = \<lparr>plan_merchant = merchant config, plan_timestamp = now w,
                    plan_channels = channelPlans,
                    plan_summary = calculateSummary channelPlans
                       (new_Set (map rch_name remoteChannelList)) channelsWithSecrets\<rparr>"
    by auto
  have names: "map ch_name channelsWithSecrets = map ch_name (selected_channels options discovered)"
    using loadAll_names[OF load] substitute_names[OF subst] by simp
  have pn: "map chp_channel channelPlans = map ch_name (selected_channels options discovered)"
    using plan_channels_names[OF plans] names by simp
  have img: "ch_name ` set channelsWithSecrets = ch_name ` set (selected_channels options discovered)"
    using arg_cong[OF names, of set] by simp
  have sub: "set (selected_channels options discovered) \<subseteq> set discovered"
    by (auto simp: selected_channels_def split: option.splits)
  have "\<forall>cp \<in> set channelPlans. chp_channel cp \<in> ch_name ` set discovered"
  proof
    fix cp assume "cp \<in> set channelPlans"
    then have "chp_channel cp \<in> set (map chp_channel channelPlans)" by simp
    then have "chp_channel cp \<in> ch_name ` set (selected_channels options discovered)"
      unfolding pn by simp
    with sub show "chp_channel cp \<in> ch_name ` set discovered" by auto
  qed
  then show ?thesis
    using pn img
    by (simp add: plan calculateSummary_counts calculateSummary_unmanaged
          distinct_new_Set set_new_Set)
qed

text \<open>
  C5. For every plan that \<open>generatePlan\<close> returns: creates + updates + unchanged of the
  summary is the total number of configuration plans across its channel plans; the channel
  plans are those of the local channels planned, in order; unmanaged is the number of remote
  channel names that are not the name of a local channel planned; and every channel plan is
  that of a discovered local channel, so a channel that only the remote has never appears
  among them. (Local \<open>no\<close>, \<open>se\<close> and remote \<open>se\<close>, \<open>no\<close>, \<open>demo\<close> give unmanaged = 1 and no
  \<open>demo\<close> entry: the example after the theorem.)
\<close>

theorem generatePlan_summary:
  assumes "generatePlan w config options = Inr plan"
    and "discoverChannels w = Inr discovered"
    and "listChannels w = Inr remoteChannelList"
  shows "creates (plan_summary plan) + updates (plan_summary plan) + unchanged (plan_summary plan)
           = (\<Sum>cp\<leftarrow>plan_channels plan. length (chp_configs cp))
         \<and> map chp_channel (plan_channels plan)
           = map ch_name (selected_channels options discovered)
         \<and> unmanaged (plan_summary plan)
           = card (rch_name ` set remoteChannelList
                     - ch_name ` set (selected_channels options discovered))
         \<and> (\<forall>cp \<in> set (plan_channels plan). chp_channel cp \<in> ch_name ` set discovered)"
  using assms by (rule generatePlan_shape)

lemma example_run:
  "generatePlan example_world example_config \<lparr>opt_channel = None, opt_verbose = None\<rparr>
   = Inr \<lparr>plan_merchant = ''acme'', plan_timestamp = ''2026-01-30T00:00:00.000Z'',
          plan_channels =
            [\<lparr>chp_channel = ''no'', chp_existsRemotely = True,
              chp_configs = [\<lparr>cp_name = ''x'', cp_status = Create,
                 cp_diffs = [\<lparr>fd_path = ''/id'', fd_type = Add, fd_oldValue = None,
                               fd_newValue = Some (JStr ''x'')\<rparr>,
                             \<lparr>fd_path = ''/a'', fd_type = Add, fd_oldValue = None,
                               fd_newValue = Some (JNum 1)\<rparr>]\<rparr>]\<rparr>,
             \<lparr>chp_channel = ''se'', chp_existsRemotely = True,
              chp_configs = [\<lparr>cp_name = ''x'', cp_status = Create,
                 cp_diffs = [\<lparr>fd_path = ''/id'', fd_type = Add, fd_oldValue = None,
                               fd_newValue = Some (JStr ''x'')\<rparr>,
                             \<lparr>fd_path = ''/a'', fd_type = Add, fd_oldValue = None,
                               fd_newValue = Some (JNum 1)\<rparr>]\<rparr>]\<rparr>],
          plan_summary = \<lparr>creates = 2, updates = 0, unchanged = 0, unmanaged = 1\<rparr>\<rparr>"
  by (simp add: generatePlan_def example_world_def example_config_def example_channels_def
        loadAllChannelConfigs_def loadChannelConfigs_def substituteSecretsInChannels_def
        generateChannelPlan_def generateConfigPlan_def calculateSummary_def new_Set_def
        eval_diff)

theorem generatePlan_summary_witness:
  "(case generatePlan example_world example_config \<lparr>opt_channel = None, opt_verbose = None\<rparr> of
      Inl e \<Rightarrow> False
    | Inr plan \<Rightarrow>
        creates (plan_summary plan) + updates (plan_summary plan) + unchanged (plan_summary plan) = 2
        \<and> unmanaged (plan_summary plan) = 1
        \<and> map chp_channel (plan_channels plan) = [''no'', ''se''])"
proof -
  obtain plan where run:
    "generatePlan example_world example_config \<lparr>opt_channel = None, opt_verbose = None\<rparr> = Inr plan"
    and len: "map (\<lambda>cp. length (chp_configs cp)) (plan_channels plan) = [1, 1]"
    using example_run by simp
  have d: "discoverChannels example_world = Inr example_channels"
    by (simp add: example_world_def)
  have l: "listChannels example_world
             = Inr [\<lparr>rch_name = ''se''\<rparr>, \<lparr>rch_name = ''no''\<rparr>, \<lparr>rch_name = ''demo''\<rparr>]"
    by (simp add: example_world_def)
  have c: "card ({''se'', ''no'', ''demo''} - {''no'', ''se''}) = 1"
    by (simp add: insert_Diff_if)
  show ?thesis
    using generatePlan_summary[OF run d l] len c
    by (simp add: run selected_channels_def example_channels_def)
qed

lemma generatePlan_selected:
  assumes "generatePlan w config options = Inr plan"
    and "discoverChannels w = Inr discovered"
    and "opt_channel options = Some X" and "X \<noteq> []"
  shows "selected_channels options discovered \<noteq> []"
  using assms
  unfolding generatePlan_def selected_channels_def Let_def
  by (auto split: sum.splits if_splits option.splits exn.splits)

lemma filter_distinct_le1:
  "distinct (map f xs) \<Longrightarrow> length (filter (\<lambda>x. f x = a) xs) \<le> 1"
proof (induction xs)
  case Nil
  then show ?case by simp
next
  case (Cons x xs)
  have "f x = a \<Longrightarrow> filter (\<lambda>x. f x = a) xs = []"
  proof (rule filter_none)
    fix y assume "f x = a" and "y \<in> set xs"
    with Cons.prems show "f y \<noteq> a" by (auto simp: image_iff)
  qed
  with Cons show ?case by auto
qed

text \<open>
  C10. When \<open>generatePlan\<close> runs with the single-channel option \<open>X\<close> on a project whose
  channels have pairwise different names, the local channels are filtered to \<open>X\<close> before
  planning and before the unmanaged count: the plan it returns holds at most one channel
  plan, each for \<open>X\<close>, and unmanaged counts every remote channel name other than \<open>X\<close>,
  also the remote channels that have a local counterpart which the filter left out.
\<close>

theorem generatePlan_single_channel:
  assumes "generatePlan w config options = Inr plan"
    and "opt_channel options = Some X" and "X \<noteq> []"
    and "discoverChannels w = Inr discovered" and "distinct (map ch_name discovered)"
    and "listChannels w = Inr remoteChannelList"
  shows "length (plan_channels plan) \<le> 1
         \<and> map chp_channel (plan_channels plan)
             = map ch_name (filter (\<lambda>ch. ch_name ch = X) discovered)
         \<and> (\<forall>cp \<in> set (plan_channels plan). chp_channel cp = X)
         \<and> unmanaged (plan_summary plan) = card (rch_name ` set remoteChannelList - {X})"
proof -
  have sel: "selected_channels options discovered = filter (\<lambda>ch. ch_name ch = X) discovered"
    using assms(2,3) by (simp add: selected_channels_def)
  have ne: "filter (\<lambda>ch. ch_name ch = X) discovered \<noteq> []"
    using generatePlan_selected[OF assms(1,4,2,3)] sel by simp
  have names: "map chp_channel (plan_channels plan)
                 = map ch_name (filter (\<lambda>ch. ch_name ch = X) discovered)"
    and unm: "unmanaged (plan_summary plan)
                = card (rch_name ` set remoteChannelList
                          - ch_name ` set (filter (\<lambda>ch. ch_name ch = X) discovered))"
    using generatePlan_shape[OF assms(1,4,6)] sel by simp_all
  have "length (plan_channels plan) = length (filter (\<lambda>ch. ch_name ch = X) discovered)"
    using arg_cong[OF names, of length] by simp
  then have le: "length (plan_channels plan) \<le> 1"
    using filter_distinct_le1[OF assms(5), of X] by simp
  have img: "ch_name ` set (filter (\<lambda>ch. ch_name ch = X) discovered) = {X}"
    using ne by (auto simp: filter_empty_conv)
  have all: "\<forall>cp \<in> set (plan_channels plan). chp_channel cp = X"
  proof
    fix cp assume "cp \<in> set (plan_channels plan)"
    then have "chp_channel cp \<in> set (map chp_channel (plan_channels plan))" by simp
    then show "chp_channel cp = X" unfolding names by auto
  qed
  show ?thesis using le names all unm img by simp
qed

theorem generatePlan_single_channel_witness:
  "(case generatePlan example_world example_config \<lparr>opt_channel = Some ''se'', opt_verbose = None\<rparr> of
      Inl e \<Rightarrow> False
    | Inr plan \<Rightarrow>
        map chp_channel (plan_channels plan) = [''se'']
        \<and> unmanaged (plan_summary plan) = 2)"
proof -
  have "\<exists>plan. generatePlan example_world example_config
                  \<lparr>opt_channel = Some ''se'', opt_verbose = None\<rparr> = Inr plan"
    by (simp add: eval_plan example_world_def example_config_def example_channels_def eval_diff)
  then obtain plan where run:
    "generatePlan example_world example_config \<lparr>opt_channel = Some ''se'', opt_verbose = None\<rparr> = Inr plan"
    by blast
  have d: "discoverChannels example_world = Inr example_channels"
    by (simp add: example_world_def)
  have dn: "distinct (map ch_name example_channels)"
    by (simp add: example_channels_def)
  have l: "listChannels example_world
             = Inr [\<lparr>rch_name = ''se''\<rparr>, \<lparr>rch_name = ''no''\<rparr>, \<lparr>rch_name = ''demo''\<rparr>]"
    by (simp add: example_world_def)
  have c: "card ({''se'', ''no'', ''demo''} - {''se''}) = 2"
    by (simp add: insert_Diff_if)
  show ?thesis
    using generatePlan_single_channel[OF run _ _ d dn l, of "''se''"] c
    by (simp add: run example_channels_def)
qed

text \<open>
  C3. The claim: in per-channel planning a failed fetch of the remote configuration list is
  fatal for the whole run unless it signals "not found" (status 404), whatever the kind of
  the error; a failed listing of the remote channels is fatal too. The code at the failing
  input: when \<^verbatim>\<open>listConfigs\<close> fails with an error that is not an \<^verbatim>\<open>ApiError\<close> (the network
  is down), the run is not aborted: it returns a plan in which every local configuration is
  a \<^verbatim>\<open>create\<close>. An \<^verbatim>\<open>ApiError\<close> with status 500 aborts the run, and so does the same
  network error in the listing of the remote channels.
\<close>

theorem generateChannelPlan_swallows_other_errors:
  "generatePlan (example_world\<lparr>listConfigs := (\<lambda>channel. Inl (OtherError ''fetch failed''))\<rparr>)
     example_config \<lparr>opt_channel = None, opt_verbose = None\<rparr>
   = Inr \<lparr>plan_merchant = ''acme'', plan_timestamp = ''2026-01-30T00:00:00.000Z'',
          plan_channels =
            [\<lparr>chp_channel = ''no'', chp_existsRemotely = True,
              chp_configs = [\<lparr>cp_name = ''x'', cp_status = Create,
                 cp_diffs = [\<lparr>fd_path = ''/id'', fd_type = Add, fd_oldValue = None,
                               fd_newValue = Some (JStr ''x'')\<rparr>,
                             \<lparr>fd_path = ''/a'', fd_type = Add, fd_oldValue = None,
                               fd_newValue = Some (JNum 1)\<rparr>]\<rparr>]\<rparr>,
             \<lparr>chp_channel = ''se'', chp_existsRemotely = True,
              chp_configs = [\<lparr>cp_name = ''x'', cp_status = Create,
                 cp_diffs = [\<lparr>fd_path = ''/id'', fd_type = Add, fd_oldValue = None,
                               fd_newValue = Some (JStr ''x'')\<rparr>,
                             \<lparr>fd_path = ''/a'', fd_type = Add, fd_oldValue = None,
                               fd_newValue = Some (JNum 1)\<rparr>]\<rparr>]\<rparr>],
          plan_summary = \<lparr>creates = 2, updates = 0, unchanged = 0, unmanaged = 1\<rparr>\<rparr>
   \<and> generatePlan (example_world\<lparr>listConfigs := (\<lambda>channel. Inl (ApiError ''boom'' 500))\<rparr>)
     example_config \<lparr>opt_channel = None, opt_verbose = None\<rparr>
   = Inl (Error (''Failed to list configs for channel '' @ [CHR 39] @ ''no'' @ [CHR 39] @ '': boom''))
   \<and> generatePlan (example_world\<lparr>listChannels := Inl (OtherError ''fetch failed'')\<rparr>)
     example_config \<lparr>opt_channel = None, opt_verbose = None\<rparr>
   = Inl (OtherError ''fetch failed'')"
  by (simp add: eval_plan example_world_def example_config_def example_channels_def eval_diff)

section \<open>Properties of the compare service\<close>

lemma loop_all:
  "compareChannels_loop names configsA configsB False
     = map (\<lambda>name. compareConfig name (map_of configsA name) (map_of configsB name)) names"
  by (induction names) (simp_all add: Let_def)

lemma loop_filtered:
  "compareChannels_loop names configsA configsB True
     = filter (\<lambda>c. cmp_status c \<noteq> Identical)
         (compareChannels_loop names configsA configsB False)"
  by (induction names) (simp_all add: Let_def)

lemma compare_counts:
  "fold (\<lambda>comparison (i, d, a, b).
            (case cmp_status comparison of
               Identical \<Rightarrow> (i + 1, d, a, b)
             | Different \<Rightarrow> (i, d + 1, a, b)
             | OnlyInA \<Rightarrow> (i, d, a + 1, b)
             | OnlyInB \<Rightarrow> (i, d, a, b + 1))) cs (i0, d0, a0, b0)
   = (i0 + length (filter (\<lambda>c. cmp_status c = Identical) cs),
      d0 + length (filter (\<lambda>c. cmp_status c = Different) cs),
      a0 + length (filter (\<lambda>c. cmp_status c = OnlyInA) cs),
      b0 + length (filter (\<lambda>c. cmp_status c = OnlyInB) cs))"
proof (induction cs arbitrary: i0 d0 a0 b0)
  case Nil
  then show ?case by simp
next
  case (Cons c cs)
  then show ?case by (cases "cmp_status c") simp_all
qed

lemma calculateSummary_compare_eq:
  "calculateSummary_compare cs totalA totalB totalUnique =
     \<lparr>identical = (if length cs < totalUnique then totalUnique - length cs
                   else length (filter (\<lambda>c. cmp_status c = Identical) cs)),
      different = length (filter (\<lambda>c. cmp_status c = Different) cs),
      onlyInA = length (filter (\<lambda>c. cmp_status c = OnlyInA) cs),
      onlyInB = length (filter (\<lambda>c. cmp_status c = OnlyInB) cs)\<rparr>"
  by (simp add: calculateSummary_compare_def compare_counts Let_def)

lemma length_filter_split:
  "length (filter (\<lambda>c. cmp_status c \<noteq> Identical) cs)
     + length (filter (\<lambda>c. cmp_status c = Identical) cs) = length cs"
  using sum_length_filter_compl[of "\<lambda>c. cmp_status c = Identical" cs] by simp

lemma compareChannels_Inr:
  assumes "compareChannels w channelA channelB differencesOnly = Inr res"
  shows "\<exists>names configsA configsB.
           (\<forall>flag. compareChannels w channelA channelB flag
               = Inr \<lparr>res_channelA = channelA, res_channelB = channelB, res_timestamp = now w,
                      res_configs = compareChannels_loop names configsA configsB flag,
                      res_summary = calculateSummary_compare
                         (compareChannels_loop names configsA configsB flag)
                         (length configsA) (length configsB) (length names)\<rparr>)"
proof -
  from assms obtain channels loadedChannels chA chB where
    d: "discoverChannels w = Inr channels"
    and l: "loadAllChannelConfigs w channels = Inr loadedChannels"
    and fa: "List.find (\<lambda>ch. ch_name ch = channelA) loadedChannels = Some chA"
    and fb: "List.find (\<lambda>ch. ch_name ch = channelB) loadedChannels = Some chB"
    unfolding compareChannels_def by (auto split: sum.splits option.splits)
  show ?thesis
    by (rule exI[of _ "new_Set
           (map fst (new_Map (map (\<lambda>c. (cfg_name c, cfg_merged c)) (ch_configs chA)))
            @ map fst (new_Map (map (\<lambda>c. (cfg_name c, cfg_merged c)) (ch_configs chB))))"],
        rule exI[of _ "new_Map (map (\<lambda>c. (cfg_name c, cfg_merged c)) (ch_configs chA))"],
        rule exI[of _ "new_Map (map (\<lambda>c. (cfg_name c, cfg_merged c)) (ch_configs chB))"])
       (simp add: compareChannels_def d l fa fb Let_def)
qed

text \<open>
  C9. When \<open>compareChannels\<close> runs with \<^verbatim>\<open>differencesOnly\<close>, its list of configurations is that
  of the run without the option (one entry per configuration name) less the entries
  classified \<^verbatim>\<open>identical\<close>; the \<open>identical\<close> count of its summary is still the number of
  identical entries of the full list; whenever the filtering removed entries that count is
  the total number of names minus the number of entries emitted; and the counts
  \<open>different\<close>, \<open>onlyInA\<close> and \<open>onlyInB\<close> are the counts over the entries emitted.
\<close>

theorem compareChannels_differencesOnly:
  assumes "compareChannels w channelA channelB True = Inr res"
  shows "\<exists>resAll. compareChannels w channelA channelB False = Inr resAll
         \<and> res_configs res = filter (\<lambda>c. cmp_status c \<noteq> Identical) (res_configs resAll)
         \<and> identical (res_summary res)
             = length (filter (\<lambda>c. cmp_status c = Identical) (res_configs resAll))
         \<and> different (res_summary res)
             = length (filter (\<lambda>c. cmp_status c = Different) (res_configs res))
         \<and> onlyInA (res_summary res)
             = length (filter (\<lambda>c. cmp_status c = OnlyInA) (res_configs res))
         \<and> onlyInB (res_summary res)
             = length (filter (\<lambda>c. cmp_status c = OnlyInB) (res_configs res))
         \<and> (length (res_configs res) < length (res_configs resAll) \<longrightarrow>
              identical (res_summary res)
                = length (res_configs resAll) - length (res_configs res))"
proof -
  from compareChannels_Inr[OF assms] obtain names configsA configsB where
    run: "\<And>flag. compareChannels w channelA channelB flag
               = Inr \<lparr>res_channelA = channelA, res_channelB = channelB, res_timestamp = now w,
                      res_configs = compareChannels_loop names configsA configsB flag,
                      res_summary = calculateSummary_compare
                         (compareChannels_loop names configsA configsB flag)
                         (length configsA) (length configsB) (length names)\<rparr>"
    by blast
  let ?all = "compareChannels_loop names configsA configsB False"
  from run[of True] assms
  have cs: "res_configs res = compareChannels_loop names configsA configsB True"
    and sm: "res_summary res = calculateSummary_compare (res_configs res)
              (length configsA) (length configsB) (length names)"
    by auto
  have len: "length ?all = length names" by (simp add: loop_all)
  have flt: "res_configs res = filter (\<lambda>c. cmp_status c \<noteq> Identical) ?all"
    by (simp add: cs loop_filtered)
  have split: "length (res_configs res)
                 + length (filter (\<lambda>c. cmp_status c = Identical) ?all) = length names"
    using length_filter_split[of ?all] by (simp add: flt len)
  have none: "filter (\<lambda>c. cmp_status c = Identical) (res_configs res) = []"
    by (simp add: flt filter_empty_conv)
  have ident: "identical (res_summary res)
                 = length (filter (\<lambda>c. cmp_status c = Identical) ?all)"
  proof (cases "length (res_configs res) < length names")
    case True
    then have "identical (res_summary res) = length names - length (res_configs res)"
      by (simp add: sm calculateSummary_compare_eq)
    with split show ?thesis by arith
  next
    case False
    then have "identical (res_summary res) = 0"
      by (simp add: sm calculateSummary_compare_eq none)
    with split False show ?thesis by arith
  qed
  have others: "different (res_summary res)
                  = length (filter (\<lambda>c. cmp_status c = Different) (res_configs res))"
    "onlyInA (res_summary res)
                  = length (filter (\<lambda>c. cmp_status c = OnlyInA) (res_configs res))"
    "onlyInB (res_summary res)
                  = length (filter (\<lambda>c. cmp_status c = OnlyInB) (res_configs res))"
    by (simp_all add: sm calculateSummary_compare_eq)
  have rec: "length (res_configs res) < length ?all \<longrightarrow>
      identical (res_summary res) = length ?all - length (res_configs res)"
    using split unfolding ident len by arith
  show ?thesis
    using run[of False] flt ident others rec by simp
qed

theorem compareChannels_differencesOnly_witness:
  "(case compareChannels example_compare_world ''no'' ''se'' True of
      Inl e \<Rightarrow> False
    | Inr res \<Rightarrow>
        map cmp_name (res_configs res) = [''y'', ''z'']
        \<and> res_summary res = \<lparr>identical = 1, different = 1, onlyInA = 0, onlyInB = 1\<rparr>)"
proof -
  have run: "compareChannels example_compare_world ''no'' ''se'' True
     = Inr \<lparr>res_channelA = ''no'', res_channelB = ''se'',
            res_timestamp = ''2026-01-30T00:00:00.000Z'',
            res_configs =
              [\<lparr>cmp_name = ''y'', cmp_status = Different,
                cmp_diffs = [\<lparr>fd_path = ''/b'', fd_type = Change,
                              fd_oldValue = Some (JNum 2), fd_newValue = Some (JNum 1)\<rparr>],
                cmp_configA = Some [(''b'', JNum 1)], cmp_configB = Some [(''b'', JNum 2)]\<rparr>,
               \<lparr>cmp_name = ''z'', cmp_status = OnlyInB, cmp_diffs = [],
                cmp_configA = None, cmp_configB = Some []\<rparr>],
            res_summary = \<lparr>identical = 1, different = 1, onlyInA = 0, onlyInB = 1\<rparr>\<rparr>"
    by (simp add: compareChannels_def example_compare_world_def example_world_def
          example_channels_def loadAllChannelConfigs_def loadChannelConfigs_def
          new_Map_def new_Set_def compareConfig_def calculateSummary_compare_def eval_diff)
  show ?thesis
    using compareChannels_differencesOnly[OF run] by (simp add: run)
qed

end
